theory Spec2Isabelle
  imports Main "HOL-Library.AList"
begin

section \<open>JavaScript values\<close>

text \<open>
  The values that cross the RPC boundary. An object literal is an association list: its
  keys are kept in insertion order, as a JavaScript object keeps its string keys.
\<close>

datatype jsval =
    Undefined
  | Bool bool
  | Num nat
  | Str string
  | Arr "jsval list"
  | Obj "(string \<times> jsval) list"

type_synonym props = "(string \<times> jsval) list"

text \<open>
  Modelled from the spec: \<open>assign\<close> of \<open>vs/base/common/objects\<close> is imported by the
  source but is not among the source files. The pending-update buffer "merges repeated
  writes to the same field (last value wins)": every key of the source object is written
  into the destination, in the order of the source, overwriting the value of a key that
  is already there and appending a key that is new.
\<close>

definition assign :: "props \<Rightarrow> props \<Rightarrow> props" where
  "assign destination source = fold (\<lambda>(k, v). AList.update k v) source destination"

text \<open>An optional string or boolean property of an object: absent is \<open>undefined\<close>.\<close>

definition opt_str :: "string option \<Rightarrow> jsval" where
  "opt_str s = (case s of None \<Rightarrow> Undefined | Some x \<Rightarrow> Str x)"

definition opt_bool :: "bool option \<Rightarrow> jsval" where
  "opt_bool b = (case b of None \<Rightarrow> Undefined | Some x \<Rightarrow> Bool x)"

section \<open>Event emitters\<close>

text \<open>
  Modelled from the spec: \<open>Emitter\<close> of \<open>vs/base/common/event\<close> is imported by the
  source but is not among the source files. It is "an explicit publish/subscribe channel
  per event name, owned by the session, torn down on disposal". The model keeps what the
  channel has delivered to its subscribers: \<open>fire\<close> delivers one event, \<open>dispose_emitter\<close>
  tears the channel down (it delivers nothing, and nothing is delivered afterwards).
\<close>

record 'e Emitter =
  delivered :: "'e list"
  torn_down :: bool

definition new_Emitter :: "'e Emitter" where
  "new_Emitter = \<lparr>delivered = [], torn_down = False\<rparr>"

definition fire :: "'e \<Rightarrow> 'e Emitter \<Rightarrow> 'e Emitter" where
  "fire e em = (if torn_down em then em else em\<lparr>delivered := delivered em @ [e]\<rparr>)"

definition dispose_emitter :: "'e Emitter \<Rightarrow> 'e Emitter" where
  "dispose_emitter em = em\<lparr>torn_down := True\<rparr>"

section \<open>Items, callbacks and the host proxy\<close>

text \<open>
  \<open>QuickPickItem\<close> of the \<open>vscode\<close> API: a label and three optional fields. The
  caller's object may carry any other properties; they are kept in \<open>extra\<close>.
\<close>

record QuickPickItem =
  label :: string
  description :: "string option"
  detail :: "string option"
  picked :: "bool option"
  extra :: props

text \<open>The object literal \<open>{ label }\<close>: an item with a label and nothing else.\<close>

definition labelled :: "string \<Rightarrow> QuickPickItem" where
  "labelled l = \<lparr>label = l, description = None, detail = None, picked = None, extra = []\<rparr>"

text \<open>\<open>type Item = string | QuickPickItem\<close>\<close>

datatype Item = ItemString string | ItemObject QuickPickItem

text \<open>
  A function supplied by the extension (\<open>options.onDidSelectItem\<close>,
  \<open>options.validateInput\<close>) is opaque code: the model names it and records with which
  argument it is invoked.
\<close>

datatype callback = Callback nat

datatype session_class = QuickPickClass | InputBoxClass

text \<open>
  \<open>QuickPickOptions\<close> and \<open>InputBoxOptions\<close> of the \<open>vscode\<close> API; every field is
  optional.
\<close>

record QuickPickOptions =
  placeHolder :: "string option"
  matchOnDescription :: "bool option"
  matchOnDetail :: "bool option"
  ignoreFocusOut :: "bool option"
  canPickMany :: "bool option"
  options_onDidSelectItem :: "callback option"

record InputBoxOptions =
  input_value :: "string option"
  input_valueSelection :: "(nat \<times> nat) option"
  input_prompt :: "string option"
  input_placeHolder :: "string option"
  input_password :: "bool option"
  input_ignoreFocusOut :: "bool option"
  options_validateInput :: "callback option"

text \<open>
  The calls made on \<open>MainThreadQuickOpenShape\<close>. The proxy is modelled by the list of
  the calls it has received, oldest first.
\<close>

datatype proxy_call =
    Proxy_show props
  | Proxy_setItems "jsval list"
  | Proxy_setError jsval
  | Proxy_input "InputBoxOptions option" bool
  | Proxy_createOrUpdate props
  | Proxy_dispose nat

section \<open>\<open>ExtHostQuickOpen\<close> and the runtime\<close>

text \<open>
  The private fields of \<open>ExtHostQuickOpen\<close>. \<open>onDidSelectItem\<close> holds the closure
  \<open>(handle) => options.onDidSelectItem(items[handle])\<close> as the callback and the item list
  it captures. \<open>sessions\<close> is the \<open>Map\<close> from session ids to session objects, kept as
  its keys with the class of the object.
\<close>

record ExtHostQuickOpen =
  proxy :: "proxy_call list"
  onDidSelectItem :: "(callback \<times> Item list) option"
  validateInput :: "callback option"
  sessions :: "(nat \<times> session_class) list"

text \<open>
  The world a session lives in: its owning \<open>ExtHostQuickOpen\<close>, the timers of the event
  loop that are set and have not fired (every one of them carries the flush callback of
  the session), the next timer handle, and the static counter
  \<open>ExtHostQuickInput._nextId\<close>.
\<close>

record world = ExtHostQuickOpen +
  timers :: "nat list"
  nextTimer :: nat
  nextId :: nat

text \<open>
  \<open>clearTimeout\<close> and \<open>setTimeout\<close> of the JavaScript runtime. Clearing \<open>undefined\<close>
  or the handle of a timer that has fired does nothing; a new timer gets a fresh handle and
  goes to the end of the queue.
\<close>

definition clearTimeout :: "nat option \<Rightarrow> world \<Rightarrow> world" where
  "clearTimeout handle w =
     (case handle of
        None \<Rightarrow> w
      | Some t \<Rightarrow> w\<lparr>timers := removeAll t (timers w)\<rparr>)"

definition setTimeout :: "world \<Rightarrow> nat \<times> world" where
  "setTimeout w =
     (nextTimer w, w\<lparr>timers := timers w @ [nextTimer w], nextTimer := Suc (nextTimer w)\<rparr>)"

section \<open>\<open>ExtHostQuickInput\<close>\<close>

text \<open>
  The fields of the class, named without their leading underscore; \<open>_id\<close> is \<open>sid\<close>.
  The constructor parameter \<open>_proxy\<close> is the proxy of the world, and \<open>_onDispose\<close> is
  written out in \<open>dispose\<close>. The timer handle \<open>_updateTimeout\<close> is \<open>undefined\<close>
  (\<open>None\<close>) until the first timer is set, and keeps the handle of a timer that has fired.
\<close>

record ExtHostQuickInput =
  extensionId :: string
  sid :: nat
  visible :: bool
  enabled :: bool
  busy :: bool
  onDidHideEmitter :: "unit Emitter"
  updateTimeout :: "nat option"
  pendingUpdate :: props
  disposed :: bool

text \<open>
  The field initialisers of the class. \<open>_id = ExtHostQuickPick._nextId++\<close> is done by
  the caller, which also advances the counter.
\<close>

definition new_ExtHostQuickInput :: "string \<Rightarrow> nat \<Rightarrow> ExtHostQuickInput" where
  "new_ExtHostQuickInput ext i =
     \<lparr>extensionId = ext, sid = i, visible = False, enabled = True, busy = False,
      onDidHideEmitter = new_Emitter, updateTimeout = None,
      pendingUpdate = [(''id'', Num i)], disposed = False\<rparr>"

text \<open>The callback that \<open>update\<close> hands to \<open>setTimeout\<close>.\<close>

definition flush ::
  "world \<times> 'a ExtHostQuickInput_scheme \<Rightarrow> world \<times> 'a ExtHostQuickInput_scheme" where
  "flush = (\<lambda>(w, this).
     if disposed this then (w, this)
     else (w\<lparr>proxy := proxy w @ [Proxy_createOrUpdate (pendingUpdate this)]\<rparr>,
           this\<lparr>pendingUpdate := [(''id'', Num (sid this))]\<rparr>))"

definition update ::
  "props \<Rightarrow> world \<times> 'a ExtHostQuickInput_scheme \<Rightarrow> world \<times> 'a ExtHostQuickInput_scheme" where
  "update properties = (\<lambda>(w, this).
     if disposed this then (w, this)
     else
       let this = this\<lparr>pendingUpdate := assign (pendingUpdate this) properties\<rparr> in
       if \<not> visible this then (w, this)
       else
         let w = clearTimeout (updateTimeout this) w;
             (t, w) = setTimeout w
         in (w, this\<lparr>updateTimeout := Some t\<rparr>))"

definition set_enabled ::
  "bool \<Rightarrow> world \<times> 'a ExtHostQuickInput_scheme \<Rightarrow> world \<times> 'a ExtHostQuickInput_scheme" where
  "set_enabled e = (\<lambda>(w, this). update [(''enabled'', Bool e)] (w, this\<lparr>enabled := e\<rparr>))"

definition set_busy ::
  "bool \<Rightarrow> world \<times> 'a ExtHostQuickInput_scheme \<Rightarrow> world \<times> 'a ExtHostQuickInput_scheme" where
  "set_busy b = (\<lambda>(w, this). update [(''busy'', Bool b)] (w, this\<lparr>busy := b\<rparr>))"

text \<open>The method \<open>show\<close>; the name \<open>show\<close> itself is a keyword of Isabelle.\<close>

definition show' ::
  "world \<times> 'a ExtHostQuickInput_scheme \<Rightarrow> world \<times> 'a ExtHostQuickInput_scheme" where
  "show' = (\<lambda>(w, this). update [(''visible'', Bool True)] (w, this\<lparr>visible := True\<rparr>))"

definition hide ::
  "world \<times> 'a ExtHostQuickInput_scheme \<Rightarrow> world \<times> 'a ExtHostQuickInput_scheme" where
  "hide = (\<lambda>(w, this). update [(''visible'', Bool False)] (w, this\<lparr>visible := False\<rparr>))"

text \<open>
  \<open>_onDispose\<close> is the closure \<open>() => this._sessions.delete(session._id)\<close> that
  \<open>createQuickPick\<close> and \<open>createInputBox\<close> pass to the constructor.
\<close>

definition dispose ::
  "world \<times> 'a ExtHostQuickInput_scheme \<Rightarrow> world \<times> 'a ExtHostQuickInput_scheme" where
  "dispose = (\<lambda>(w, this).
     if disposed this then (w, this)
     else
       let this = this\<lparr>disposed := True\<rparr>;
           this = this\<lparr>onDidHideEmitter := dispose_emitter (onDidHideEmitter this)\<rparr>;
           w = clearTimeout (updateTimeout this) w;
           w = w\<lparr>sessions := AList.delete (sid this) (sessions w)\<rparr>;
           w = w\<lparr>proxy := proxy w @ [Proxy_dispose (sid this)]\<rparr>
       in (w, this))"

subsection \<open>The event loop\<close>

text \<open>
  One turn of the event loop after the running task has returned: every timer that is set
  fires, in the order they were set, and runs the flush callback. The callback sets no
  timer, so the queue is empty afterwards.
\<close>

fun run_timers ::
  "nat list \<Rightarrow> world \<times> 'a ExtHostQuickInput_scheme \<Rightarrow> world \<times> 'a ExtHostQuickInput_scheme" where
  "run_timers [] st = st"
| "run_timers (t # ts) st = run_timers ts (flush st)"

definition next_turn ::
  "world \<times> 'a ExtHostQuickInput_scheme \<Rightarrow> world \<times> 'a ExtHostQuickInput_scheme" where
  "next_turn = (\<lambda>(w, this). run_timers (timers w) (w\<lparr>timers := []\<rparr>, this))"

section \<open>\<open>ExtHostQuickPick\<close>\<close>

text \<open>
  The fields of the subclass. \<open>handlesToItems\<close> is a \<open>Map\<close>, kept as an association
  list in insertion order. The emitters that the source never fires
  (\<open>onDidValueChange\<close>, \<open>onDidAccept\<close>, \<open>onDidTriggerCommand\<close>, \<open>onDidFocusChange\<close>) carry
  no behaviour and are left out. An event of \<open>onDidSelectionChange\<close> is the list
  \<open>handles.map(handle => this._handlesToItems.get(handle))\<close>, whose entries are
  \<open>undefined\<close> (\<open>None\<close>) where the table has no such handle.
\<close>

record ExtHostQuickPick = ExtHostQuickInput +
  qp_value :: string
  qp_placeholder :: "string option"
  qp_commands :: "jsval list"
  items :: "QuickPickItem list"
  handlesToItems :: "(nat \<times> QuickPickItem) list"
  canSelectMany :: bool
  builtInFilter :: bool
  focusedItems :: "QuickPickItem list"
  selectedItems :: "QuickPickItem list"
  onDidSelectionChangeEmitter :: "QuickPickItem option list Emitter"

definition new_ExtHostQuickPick :: "string \<Rightarrow> nat \<Rightarrow> ExtHostQuickPick" where
  "new_ExtHostQuickPick ext i =
     ExtHostQuickInput.extend (new_ExtHostQuickInput ext i)
       (ExtHostQuickPick.fields [] None [] [] [] False True [] [] new_Emitter)"

definition qp_set_value ::
  "string \<Rightarrow> world \<times> 'a ExtHostQuickPick_scheme \<Rightarrow> world \<times> 'a ExtHostQuickPick_scheme" where
  "qp_set_value v = (\<lambda>(w, this). update [(''value'', Str v)] (w, this\<lparr>qp_value := v\<rparr>))"

definition qp_set_placeholder ::
  "string \<Rightarrow> world \<times> 'a ExtHostQuickPick_scheme \<Rightarrow> world \<times> 'a ExtHostQuickPick_scheme" where
  "qp_set_placeholder p = (\<lambda>(w, this).
     update [(''placeholder'', Str p)] (w, this\<lparr>qp_placeholder := Some p\<rparr>))"

definition qp_set_commands ::
  "jsval list \<Rightarrow> world \<times> 'a ExtHostQuickPick_scheme \<Rightarrow> world \<times> 'a ExtHostQuickPick_scheme" where
  "qp_set_commands cs = (\<lambda>(w, this).
     update [(''commands'', Arr cs)] (w, this\<lparr>qp_commands := cs\<rparr>))"

text \<open>The object literal that the \<open>items\<close> setter builds for the item at index \<open>i\<close>.\<close>

definition transfer_item :: "nat \<Rightarrow> QuickPickItem \<Rightarrow> jsval" where
  "transfer_item i item =
     Obj [(''label'', Str (label item)),
          (''description'', opt_str (description item)),
          (''handle'', Num i),
          (''detail'', opt_str (detail item)),
          (''picked'', opt_bool (picked item))]"

definition set_items ::
  "QuickPickItem list \<Rightarrow> world \<times> 'a ExtHostQuickPick_scheme \<Rightarrow> world \<times> 'a ExtHostQuickPick_scheme" where
  "set_items its = (\<lambda>(w, this).
     let this = this\<lparr>items := its\<rparr>;
         this = this\<lparr>handlesToItems := []\<rparr>;
         this = this\<lparr>handlesToItems :=
                  fold (\<lambda>(i, item). AList.update i item) (enumerate 0 its) (handlesToItems this)\<rparr>
     in update [(''items'', Arr (map (\<lambda>(i, item). transfer_item i item) (enumerate 0 its)))]
               (w, this))"

definition set_canSelectMany ::
  "bool \<Rightarrow> world \<times> 'a ExtHostQuickPick_scheme \<Rightarrow> world \<times> 'a ExtHostQuickPick_scheme" where
  "set_canSelectMany b = (\<lambda>(w, this).
     update [(''canSelectMany'', Bool b)] (w, this\<lparr>canSelectMany := b\<rparr>))"

definition set_builtInFilter ::
  "bool \<Rightarrow> world \<times> 'a ExtHostQuickPick_scheme \<Rightarrow> world \<times> 'a ExtHostQuickPick_scheme" where
  "set_builtInFilter b = (\<lambda>(w, this).
     update [(''builtInFilter'', Bool b)] (w, this\<lparr>builtInFilter := b\<rparr>))"

definition fireDidSelectionChange ::
  "nat list \<Rightarrow> 'a ExtHostQuickPick_scheme \<Rightarrow> 'a ExtHostQuickPick_scheme" where
  "fireDidSelectionChange handles this =
     (let its = map (\<lambda>handle. map_of (handlesToItems this) handle) handles
      in this\<lparr>onDidSelectionChangeEmitter := fire its (onDidSelectionChangeEmitter this)\<rparr>)"

section \<open>\<open>ExtHostInputBox\<close>\<close>

text \<open>The fields of the subclass; its emitters are never fired and are left out.\<close>

record ExtHostInputBox = ExtHostQuickInput +
  ib_value :: string
  ib_placeholder :: "string option"
  password :: "bool option"
  prompt :: "string option"
  validationMessage :: "string option"
  ib_commands :: "jsval list"

definition new_ExtHostInputBox :: "string \<Rightarrow> nat \<Rightarrow> ExtHostInputBox" where
  "new_ExtHostInputBox ext i =
     ExtHostQuickInput.extend (new_ExtHostQuickInput ext i)
       (ExtHostInputBox.fields [] None None None None [])"

definition ib_set_value ::
  "string \<Rightarrow> world \<times> 'a ExtHostInputBox_scheme \<Rightarrow> world \<times> 'a ExtHostInputBox_scheme" where
  "ib_set_value v = (\<lambda>(w, this). update [(''value'', Str v)] (w, this\<lparr>ib_value := v\<rparr>))"

definition ib_set_placeholder ::
  "string \<Rightarrow> world \<times> 'a ExtHostInputBox_scheme \<Rightarrow> world \<times> 'a ExtHostInputBox_scheme" where
  "ib_set_placeholder p = (\<lambda>(w, this).
     update [(''placeholder'', Str p)] (w, this\<lparr>ib_placeholder := Some p\<rparr>))"

definition set_password ::
  "bool \<Rightarrow> world \<times> 'a ExtHostInputBox_scheme \<Rightarrow> world \<times> 'a ExtHostInputBox_scheme" where
  "set_password b = (\<lambda>(w, this).
     update [(''password'', Bool b)] (w, this\<lparr>password := Some b\<rparr>))"

definition set_prompt ::
  "string \<Rightarrow> world \<times> 'a ExtHostInputBox_scheme \<Rightarrow> world \<times> 'a ExtHostInputBox_scheme" where
  "set_prompt p = (\<lambda>(w, this).
     update [(''prompt'', Str p)] (w, this\<lparr>prompt := Some p\<rparr>))"

definition set_validationMessage ::
  "string \<Rightarrow> world \<times> 'a ExtHostInputBox_scheme \<Rightarrow> world \<times> 'a ExtHostInputBox_scheme" where
  "set_validationMessage m = (\<lambda>(w, this).
     update [(''validationMessage'', Str m)] (w, this\<lparr>validationMessage := Some m\<rparr>))"

definition ib_set_commands ::
  "jsval list \<Rightarrow> world \<times> 'a ExtHostInputBox_scheme \<Rightarrow> world \<times> 'a ExtHostInputBox_scheme" where
  "ib_set_commands cs = (\<lambda>(w, this).
     update [(''commands'', Arr cs)] (w, this\<lparr>ib_commands := cs\<rparr>))"

section \<open>Creating sessions, and selection events from the host\<close>

definition createQuickPick :: "string \<Rightarrow> world \<Rightarrow> world \<times> ExtHostQuickPick" where
  "createQuickPick ext w =
     (let session = new_ExtHostQuickPick ext (nextId w);
          w = w\<lparr>nextId := Suc (nextId w)\<rparr>;
          w = w\<lparr>sessions := AList.update (sid session) QuickPickClass (sessions w)\<rparr>
      in (w, session))"

definition createInputBox :: "string \<Rightarrow> world \<Rightarrow> world \<times> ExtHostInputBox" where
  "createInputBox ext w =
     (let session = new_ExtHostInputBox ext (nextId w);
          w = w\<lparr>nextId := Suc (nextId w)\<rparr>;
          w = w\<lparr>sessions := AList.update (sid session) InputBoxClass (sessions w)\<rparr>
      in (w, session))"

text \<open>
  \<open>$onDidSelectItems\<close>: the registry is asked for the session, and only an
  \<open>ExtHostQuickPick\<close> is notified. The world holds one session object; an event for another
  registered session does not touch it.
\<close>

definition onDidSelectItems ::
  "nat \<Rightarrow> nat list \<Rightarrow> world \<times> 'a ExtHostQuickPick_scheme \<Rightarrow> world \<times> 'a ExtHostQuickPick_scheme" where
  "onDidSelectItems sessionId handles = (\<lambda>(w, this).
     case map_of (sessions w) sessionId of
       Some QuickPickClass \<Rightarrow>
         if sessionId = sid this then (w, fireDidSelectionChange handles this) else (w, this)
     | _ \<Rightarrow> (w, this))"

section \<open>Sequences of calls\<close>

text \<open>
  What the extension and the event loop can do to a session: call a property setter, call
  \<open>show\<close>, \<open>hide\<close> or \<open>dispose\<close>, or let the running task end so that the timers fire.
\<close>

datatype 'p action = Write 'p | Show | Hide | Dispose | Turn

datatype quickpick_write =
    QP_enabled bool
  | QP_busy bool
  | QP_value string
  | QP_placeholder string
  | QP_commands "jsval list"
  | QP_items "QuickPickItem list"
  | QP_canSelectMany bool
  | QP_builtInFilter bool

fun qp_write ::
  "quickpick_write \<Rightarrow> world \<times> 'a ExtHostQuickPick_scheme \<Rightarrow> world \<times> 'a ExtHostQuickPick_scheme" where
  "qp_write (QP_enabled b) = set_enabled b"
| "qp_write (QP_busy b) = set_busy b"
| "qp_write (QP_value v) = qp_set_value v"
| "qp_write (QP_placeholder p) = qp_set_placeholder p"
| "qp_write (QP_commands cs) = qp_set_commands cs"
| "qp_write (QP_items its) = set_items its"
| "qp_write (QP_canSelectMany b) = set_canSelectMany b"
| "qp_write (QP_builtInFilter b) = set_builtInFilter b"

text \<open>The property name and the value that a setter call hands to \<open>update\<close>.\<close>

fun qp_staged :: "quickpick_write \<Rightarrow> string \<times> jsval" where
  "qp_staged (QP_enabled b) = (''enabled'', Bool b)"
| "qp_staged (QP_busy b) = (''busy'', Bool b)"
| "qp_staged (QP_value v) = (''value'', Str v)"
| "qp_staged (QP_placeholder p) = (''placeholder'', Str p)"
| "qp_staged (QP_commands cs) = (''commands'', Arr cs)"
| "qp_staged (QP_items its) =
     (''items'', Arr (map (\<lambda>(i, item). transfer_item i item) (enumerate 0 its)))"
| "qp_staged (QP_canSelectMany b) = (''canSelectMany'', Bool b)"
| "qp_staged (QP_builtInFilter b) = (''builtInFilter'', Bool b)"

datatype inputbox_write =
    IB_enabled bool
  | IB_busy bool
  | IB_value string
  | IB_placeholder string
  | IB_password bool
  | IB_prompt string
  | IB_validationMessage string
  | IB_commands "jsval list"

fun ib_write ::
  "inputbox_write \<Rightarrow> world \<times> 'a ExtHostInputBox_scheme \<Rightarrow> world \<times> 'a ExtHostInputBox_scheme" where
  "ib_write (IB_enabled b) = set_enabled b"
| "ib_write (IB_busy b) = set_busy b"
| "ib_write (IB_value v) = ib_set_value v"
| "ib_write (IB_placeholder p) = ib_set_placeholder p"
| "ib_write (IB_password b) = set_password b"
| "ib_write (IB_prompt p) = set_prompt p"
| "ib_write (IB_validationMessage m) = set_validationMessage m"
| "ib_write (IB_commands cs) = ib_set_commands cs"

fun ib_staged :: "inputbox_write \<Rightarrow> string \<times> jsval" where
  "ib_staged (IB_enabled b) = (''enabled'', Bool b)"
| "ib_staged (IB_busy b) = (''busy'', Bool b)"
| "ib_staged (IB_value v) = (''value'', Str v)"
| "ib_staged (IB_placeholder p) = (''placeholder'', Str p)"
| "ib_staged (IB_password b) = (''password'', Bool b)"
| "ib_staged (IB_prompt p) = (''prompt'', Str p)"
| "ib_staged (IB_validationMessage m) = (''validationMessage'', Str m)"
| "ib_staged (IB_commands cs) = (''commands'', Arr cs)"

text \<open>
  One call, with \<open>wr\<close> the setters of the session's class, and a sequence of calls in
  order.
\<close>

fun step ::
  "('p \<Rightarrow> world \<times> 'a ExtHostQuickInput_scheme \<Rightarrow> world \<times> 'a ExtHostQuickInput_scheme) \<Rightarrow>
   'p action \<Rightarrow> world \<times> 'a ExtHostQuickInput_scheme \<Rightarrow> world \<times> 'a ExtHostQuickInput_scheme" where
  "step wr (Write x) st = wr x st"
| "step wr Show st = show' st"
| "step wr Hide st = hide st"
| "step wr Dispose st = dispose st"
| "step wr Turn st = next_turn st"

definition run ::
  "('p \<Rightarrow> world \<times> 'a ExtHostQuickInput_scheme \<Rightarrow> world \<times> 'a ExtHostQuickInput_scheme) \<Rightarrow>
   'p action list \<Rightarrow> world \<times> 'a ExtHostQuickInput_scheme \<Rightarrow> world \<times> 'a ExtHostQuickInput_scheme" where
  "run wr acts st = fold (step wr) acts st"

section \<open>The one-shot requests of \<open>ExtHostQuickOpen\<close>\<close>

text \<open>A freshly constructed \<open>ExtHostQuickOpen\<close> in a runtime with no timer set.\<close>

definition initial_world :: world where
  "initial_world =
     \<lparr>proxy = [], onDidSelectItem = None, validateInput = None, sessions = [],
      timers = [], nextTimer = 0, nextId = 1\<rparr>"

subsection \<open>\<open>showQuickPick\<close>\<close>

text \<open>
  \<open>showQuickPick\<close> returns a promise, and its body runs in pieces as the promises it
  waits for settle. Each piece is a function of its own.

  The synchronous part: the handler of the last invocation is cleared and the host is asked
  to show the widget. \<open>options && options.placeHolder\<close> is \<open>undefined\<close> without options.
  The promise that is returned settles later; see \<open>showQuickPick_settle\<close> below.
\<close>

definition showQuickPick_call ::
  "QuickPickOptions option \<Rightarrow> 'a ExtHostQuickOpen_scheme \<Rightarrow> 'a ExtHostQuickOpen_scheme" where
  "showQuickPick_call options q =
     (let q = q\<lparr>onDidSelectItem := None\<rparr>
      in q\<lparr>proxy := proxy q @
           [Proxy_show
              [(''placeHolder'', opt_str (Option.bind options placeHolder)),
               (''matchOnDescription'', opt_bool (Option.bind options matchOnDescription)),
               (''matchOnDetail'', opt_bool (Option.bind options matchOnDetail)),
               (''ignoreFocusLost'', opt_bool (Option.bind options ignoreFocusOut)),
               (''canPickMany'', opt_bool (Option.bind options canPickMany))]]\<rparr>)"

text \<open>The body of the loop that builds \<open>pickItems\<close>, for the item at index \<open>handle\<close>.\<close>

fun pickItem :: "nat \<Rightarrow> Item \<Rightarrow> jsval" where
  "pickItem handle (ItemString s) =
     Obj [(''label'', Str s), (''description'', Undefined), (''handle'', Num handle),
          (''detail'', Undefined), (''picked'', Undefined)]"
| "pickItem handle (ItemObject item) =
     Obj [(''label'', Str (label item)), (''description'', opt_str (description item)),
          (''handle'', Num handle), (''detail'', opt_str (detail item)),
          (''picked'', opt_bool (picked item))]"

text \<open>
  The continuation \<open>itemsPromise.then(items => ...)\<close>, up to \<open>$setItems\<close>: it runs when
  the race \<open>TPromise.any([quickPickWidget, itemsPromise])\<close> was won by the item list
  (\<open>values.key\<close> is not \<open>'0'\<close>) and the list is there. A handler is installed only for
  options that carry an \<open>onDidSelectItem\<close> function.
\<close>

definition showQuickPick_items ::
  "QuickPickOptions option \<Rightarrow> Item list \<Rightarrow> 'a ExtHostQuickOpen_scheme \<Rightarrow> 'a ExtHostQuickOpen_scheme" where
  "showQuickPick_items options its q =
     (let pickItems = map (\<lambda>(handle, item). pickItem handle item) (enumerate 0 its);
          q = (case Option.bind options options_onDidSelectItem of
                 Some f \<Rightarrow> q\<lparr>onDidSelectItem := Some (f, its)\<rparr>
               | None \<Rightarrow> q)
      in q\<lparr>proxy := proxy q @ [Proxy_setItems pickItems]\<rparr>)"

text \<open>
  What the widget resolves with (a handle, a list of handles, or anything else), and the
  value \<open>quickPickWidget.then(handle => ...)\<close> makes of it. \<open>items[handle]\<close> is
  \<open>undefined\<close> outside the list.
\<close>

datatype widget_result = Handle nat | Handles "nat list" | NoHandle

datatype pick_result = Picked "Item option" | PickedMany "Item option list" | NoPick

definition item_at :: "Item list \<Rightarrow> nat \<Rightarrow> Item option" where
  "item_at its handle = (if handle < length its then Some (its ! handle) else None)"

fun showQuickPick_picked :: "Item list \<Rightarrow> widget_result \<Rightarrow> pick_result" where
  "showQuickPick_picked its (Handle handle) = Picked (item_at its handle)"
| "showQuickPick_picked its (Handles hs) = PickedMany (map (\<lambda>h. item_at its h) hs)"
| "showQuickPick_picked its NoHandle = NoPick"

text \<open>
  A promise that has settled: fulfilled with a value or rejected with an error.
\<close>

datatype 'v settled = Fulfilled 'v | Rejected jsval

text \<open>
  The rejection handler \<open>(err) => { this._proxy.$setError(err); return
  TPromise.wrapError(err); }\<close> of \<open>itemsPromise.then\<close>: the new state, and the promise
  the handler returns.
\<close>

definition showQuickPick_onRejected ::
  "jsval \<Rightarrow> 'a ExtHostQuickOpen_scheme \<Rightarrow> 'a ExtHostQuickOpen_scheme \<times> pick_result settled" where
  "showQuickPick_onRejected err q = (q\<lparr>proxy := proxy q @ [Proxy_setError err]\<rparr>, Rejected err)"

text \<open>
  \<open>TPromise.any([quickPickWidget, itemsPromise])\<close>. \<open>TPromise\<close> is imported from
  \<open>vs/base/common/winjs.base\<close>, which is not among the source files, and the spec does not
  describe the race. The source itself relies on this much: the race is fulfilled with the
  key of the promise that wins it, \<open>'0'\<close> for the widget and \<open>'1'\<close> for the item list.
  What the race does when the item list is the first to settle and is rejected is a
  parameter of the model, \<open>on_error\<close>: applied to the error it gives the outcome of the
  race, which may be a rejection (the race fails), \<open>'1'\<close> (the race completes for the item
  list) or \<open>'0'\<close> (the race goes on waiting and completes for the widget). The widget
  promise is the host's answer to \<open>$show\<close> and is taken to be fulfilled when it settles.
\<close>

datatype any_key = Key0 | Key1

datatype race_order = WidgetFirst | ItemsFirst

definition TPromise_any ::
  "(jsval \<Rightarrow> any_key settled) \<Rightarrow> race_order \<Rightarrow> Item list settled \<Rightarrow> any_key settled" where
  "TPromise_any on_error order itemsPromise =
     (case order of
        WidgetFirst \<Rightarrow> Fulfilled Key0
      | ItemsFirst \<Rightarrow>
          (case itemsPromise of
             Fulfilled its \<Rightarrow> Fulfilled Key1
           | Rejected err \<Rightarrow> on_error err))"

text \<open>
  \<open>TPromise.any(...).then(values => ...)\<close>, given the outcome of the race. The \<open>then\<close>
  has no rejection handler, so a race that fails fails the promise with the same error and
  the callback does not run. In the callback, key \<open>'0'\<close> returns \<open>undefined\<close> and
  attaches nothing to the item list. Otherwise \<open>itemsPromise.then\<close> runs the continuation
  above when the item list is fulfilled and the rejection handler when it is rejected;
  \<open>handle\<close> is what the widget resolves with in the end.
\<close>

fun showQuickPick_then ::
  "QuickPickOptions option \<Rightarrow> any_key settled \<Rightarrow> Item list settled \<Rightarrow> widget_result \<Rightarrow>
   'a ExtHostQuickOpen_scheme \<Rightarrow> 'a ExtHostQuickOpen_scheme \<times> pick_result settled" where
  "showQuickPick_then options (Rejected e) itemsPromise handle q = (q, Rejected e)"
| "showQuickPick_then options (Fulfilled Key0) itemsPromise handle q = (q, Fulfilled NoPick)"
| "showQuickPick_then options (Fulfilled Key1) (Fulfilled its) handle q =
     (showQuickPick_items options its q, Fulfilled (showQuickPick_picked its handle))"
| "showQuickPick_then options (Fulfilled Key1) (Rejected err) handle q =
     showQuickPick_onRejected err q"

text \<open>
  Modelled from the spec: \<open>wireCancellationToken\<close> of \<open>vs/base/common/async\<close> is imported
  by the source but is not among the source files. "A supplied cancellation signal must
  cause the returned result to resolve to cancelled even if the host has not yet
  responded", and cancelling "resolves the caller's promise to \<open>undefined\<close> without waiting
  for the host"; "cancellation does not retract an already-sent host-side widget".
  \<open>cancelled\<close> says that the token is cancelled before the promise settles: the result is
  then \<open>undefined\<close>; otherwise it is the outcome of the promise. The token defaults to
  \<open>CancellationToken.None\<close>, which is never cancelled.
\<close>

definition wireCancellationToken ::
  "bool \<Rightarrow> pick_result settled \<Rightarrow> pick_result settled" where
  "wireCancellationToken cancelled promise = (if cancelled then Fulfilled NoPick else promise)"

text \<open>
  The part of \<open>showQuickPick\<close> that runs after the call has returned, as a function of
  what the request meets: whether the token is cancelled first, which promise settles
  first, how the item list settles, and what the widget resolves with. It gives the state
  when the caller's promise settles, and the outcome of that promise. A request that is
  cancelled first has run none of its callbacks by then.
\<close>

definition showQuickPick_settle ::
  "(jsval \<Rightarrow> any_key settled) \<Rightarrow> QuickPickOptions option \<Rightarrow> bool \<Rightarrow> race_order \<Rightarrow>
   Item list settled \<Rightarrow> widget_result \<Rightarrow>
   'a ExtHostQuickOpen_scheme \<Rightarrow> 'a ExtHostQuickOpen_scheme \<times> pick_result settled" where
  "showQuickPick_settle on_error options cancelled order itemsPromise handle q =
     (if cancelled then (q, wireCancellationToken True (Fulfilled NoPick))
      else
        let (q', promise) =
              showQuickPick_then options (TPromise_any on_error order itemsPromise)
                itemsPromise handle q
        in (q', wireCancellationToken False promise))"

text \<open>One request from the call to the settling of the promise it returns.\<close>

definition showQuickPick ::
  "(jsval \<Rightarrow> any_key settled) \<Rightarrow> QuickPickOptions option \<Rightarrow> bool \<Rightarrow> race_order \<Rightarrow>
   Item list settled \<Rightarrow> widget_result \<Rightarrow>
   'a ExtHostQuickOpen_scheme \<Rightarrow> 'a ExtHostQuickOpen_scheme \<times> pick_result settled" where
  "showQuickPick on_error options cancelled order itemsPromise handle q =
     showQuickPick_settle on_error options cancelled order itemsPromise handle
       (showQuickPick_call options q)"


subsection \<open>\<open>showInput\<close>\<close>

definition showInput ::
  "InputBoxOptions option \<Rightarrow> 'a ExtHostQuickOpen_scheme \<Rightarrow> 'a ExtHostQuickOpen_scheme" where
  "showInput options q =
     (let q = q\<lparr>validateInput := Option.bind options options_validateInput\<rparr>
      in q\<lparr>proxy := proxy q @ [Proxy_input options (validateInput q \<noteq> None)]\<rparr>)"

text \<open>
  \<open>$validateInput\<close>: the validator that is invoked and its argument, or \<open>None\<close> when the
  method returns \<open>undefined\<close>. \<open>asWinJsPromise\<close> (\<open>vs/base/common/async\<close>), which turns
  the result of the validator into a promise, is not among the source files and is not
  modelled.
\<close>

definition validateInput_request ::
  "string \<Rightarrow> 'a ExtHostQuickOpen_scheme \<Rightarrow> (callback \<times> string) option" where
  "validateInput_request input q =
     (case validateInput q of
        None \<Rightarrow> None
      | Some f \<Rightarrow> Some (f, input))"

section \<open>The bookkeeping of a session\<close>

text \<open>
  The fields that \<open>update\<close>, \<open>dispose\<close> and the flush callback read and write, with the
  other fields of the base class set to fixed values. Every method of a subclass acts on
  these fields as the base class does.
\<close>

definition bookkeeping :: "'a ExtHostQuickInput_scheme \<Rightarrow> ExtHostQuickInput" where
  "bookkeeping this =
     \<lparr>extensionId = [], sid = sid this, visible = visible this, enabled = True, busy = False,
      onDidHideEmitter = onDidHideEmitter this, updateTimeout = updateTimeout this,
      pendingUpdate = pendingUpdate this, disposed = disposed this\<rparr>"

definition absf :: "world \<times> 'a ExtHostQuickInput_scheme \<Rightarrow> world \<times> ExtHostQuickInput" where
  "absf = (\<lambda>(w, this). (w, bookkeeping this))"

text \<open>
  What holds of every session from its creation on: a timer that is set is the one the
  session remembers, and the pending update carries the session id.
\<close>

definition session_inv :: "world \<times> 'a ExtHostQuickInput_scheme \<Rightarrow> bool" where
  "session_inv = (\<lambda>(w, this).
     set (timers w) \<subseteq> set_option (updateTimeout this) \<and>
     map_of (pendingUpdate this) ''id'' = Some (Num (sid this)))"

section \<open>Lemmas: objects and the bookkeeping of a session\<close>

lemma map_of_assign: "map_of (assign d s) = map_of d ++ map_of (rev s)"
  unfolding assign_def
proof (induction s arbitrary: d)
  case Nil
  show ?case by simp
next
  case (Cons kv s)
  obtain k v where kv: "kv = (k, v)" by (cases kv)
  show ?case
    by (simp add: kv Cons update_conv' map_add_upd_left fun_eq_iff map_add_def split: option.splits)
qed

lemma assign_single: "assign d [(k, v)] = AList.update k v d"
  by (simp add: assign_def)

lemma assign_append: "assign (assign d s) t = assign d (s @ t)"
  by (simp add: assign_def)

lemma absf_update: "absf (update p st) = update p (absf st)"
  by (cases st) (simp add: absf_def update_def bookkeeping_def Let_def setTimeout_def split: prod.splits)

lemma absf_flush: "absf (flush st) = flush (absf st)"
  by (cases st) (simp add: absf_def flush_def bookkeeping_def)

lemma absf_show: "absf (show' st) = show' (absf st)"
  by (cases st) (simp add: absf_def show'_def update_def bookkeeping_def Let_def setTimeout_def split: prod.splits)

lemma absf_hide: "absf (hide st) = hide (absf st)"
  by (cases st) (simp add: absf_def hide_def update_def bookkeeping_def Let_def setTimeout_def split: prod.splits)

lemma absf_dispose: "absf (dispose st) = dispose (absf st)"
  by (cases st) (simp add: absf_def dispose_def bookkeeping_def Let_def)

lemma absf_run_timers: "absf (run_timers ts st) = run_timers ts (absf st)"
  by (induction ts arbitrary: st) (simp_all add: absf_flush)

lemma absf_next_turn: "absf (next_turn st) = next_turn (absf st)"
  by (cases st) (simp add: next_turn_def absf_run_timers, simp add: absf_def)

lemma absf_qp_write: "absf (qp_write x st) = update [qp_staged x] (absf st)"
  by (cases st; cases x)
     (simp_all add: absf_def update_def bookkeeping_def Let_def setTimeout_def
        set_enabled_def set_busy_def qp_set_value_def qp_set_placeholder_def qp_set_commands_def
        set_items_def set_canSelectMany_def set_builtInFilter_def split: prod.splits)

lemma absf_ib_write: "absf (ib_write x st) = update [ib_staged x] (absf st)"
  by (cases st; cases x)
     (simp_all add: absf_def update_def bookkeeping_def Let_def setTimeout_def
        set_enabled_def set_busy_def ib_set_value_def ib_set_placeholder_def ib_set_commands_def
        set_password_def set_prompt_def set_validationMessage_def split: prod.splits)

lemma session_inv_absf: "session_inv (absf st) = session_inv st"
  by (cases st) (simp add: session_inv_def absf_def bookkeeping_def)

lemma removeAll_only: "set xs \<subseteq> {a} \<Longrightarrow> removeAll a xs = []"
  by (induction xs) auto

lemma clearTimeout_own:
  "set (timers w) \<subseteq> set_option h \<Longrightarrow> clearTimeout h w = w\<lparr>timers := []\<rparr>"
  by (cases h) (simp_all add: clearTimeout_def removeAll_only)

lemma update_visible:
  assumes "visible this" "\<not> disposed this" "set (timers w) \<subseteq> set_option (updateTimeout this)"
  shows "update p (w, this) =
     (w\<lparr>timers := [nextTimer w], nextTimer := Suc (nextTimer w)\<rparr>,
      this\<lparr>pendingUpdate := assign (pendingUpdate this) p, updateTimeout := Some (nextTimer w)\<rparr>)"
  using assms by (simp add: update_def Let_def setTimeout_def clearTimeout_own)

lemma update_invisible:
  assumes "\<not> visible this" "\<not> disposed this"
  shows "update p (w, this) = (w, this\<lparr>pendingUpdate := assign (pendingUpdate this) p\<rparr>)"
  using assms by (simp add: update_def Let_def)

lemma update_disposed: "disposed this \<Longrightarrow> update p (w, this) = (w, this)"
  by (simp add: update_def)

lemma flush_live:
  "\<not> disposed this \<Longrightarrow> flush (w, this) =
     (w\<lparr>proxy := proxy w @ [Proxy_createOrUpdate (pendingUpdate this)]\<rparr>,
      this\<lparr>pendingUpdate := [(''id'', Num (sid this))]\<rparr>)"
  by (simp add: flush_def)

lemma flush_disposed: "disposed this \<Longrightarrow> flush (w, this) = (w, this)"
  by (simp add: flush_def)

lemma run_timers_disposed: "disposed this \<Longrightarrow> run_timers ts (w, this) = (w, this)"
  by (induction ts) (simp_all add: flush_disposed)

lemma next_turn_single:
  assumes "timers w = [t]" "\<not> disposed this"
  shows "next_turn (w, this) =
     (w\<lparr>timers := [], proxy := proxy w @ [Proxy_createOrUpdate (pendingUpdate this)]\<rparr>,
      this\<lparr>pendingUpdate := [(''id'', Num (sid this))]\<rparr>)"
  using assms by (simp add: next_turn_def flush_live)

lemma next_turn_idle: "timers w = [] \<Longrightarrow> next_turn (w, this) = (w, this)"
  by (simp add: next_turn_def)

lemma next_turn_disposed: "disposed this \<Longrightarrow> next_turn (w, this) = (w\<lparr>timers := []\<rparr>, this)"
  by (simp add: next_turn_def run_timers_disposed)

lemma flush_inv:
  assumes "flush (w, this) = (w', this')"
      and "map_of (pendingUpdate this) ''id'' = Some (Num (sid this))"
  shows "timers w' = timers w \<and> map_of (pendingUpdate this') ''id'' = Some (Num (sid this'))"
  using assms by (cases "disposed this") (auto simp: flush_live flush_disposed)

lemma run_timers_inv:
  assumes "run_timers us (w, this) = (w', this')"
      and "map_of (pendingUpdate this) ''id'' = Some (Num (sid this))"
  shows "timers w' = timers w \<and> map_of (pendingUpdate this') ''id'' = Some (Num (sid this'))"
  using assms
proof (induction us arbitrary: w this)
  case Nil
  then show ?case by simp
next
  case (Cons u us)
  obtain w1 this1 where f: "flush (w, this) = (w1, this1)" by (cases "flush (w, this)")
  from flush_inv[OF f Cons.prems(2)] Cons.IH[of w1 this1] Cons.prems(1) f
  show ?case by simp
qed

lemma next_turn_inv:
  assumes "session_inv (w, this)"
  shows "session_inv (next_turn (w, this))"
proof -
  obtain w' this' where r: "run_timers (timers w) (w\<lparr>timers := []\<rparr>, this) = (w', this')"
    by (cases "run_timers (timers w) (w\<lparr>timers := []\<rparr>, this)")
  from run_timers_inv[OF r] assms r show ?thesis
    by (simp add: session_inv_def next_turn_def)
qed

lemma next_turn_timers: "timers (fst (next_turn (w, this))) = []"
proof -
  have "timers (fst (run_timers us st)) = timers (fst st)"
    for us and st :: "world \<times> 'a ExtHostQuickInput_scheme"
    by (induction us arbitrary: st) (auto simp: flush_def split: prod.splits)
  from this[of "timers w" "(w\<lparr>timers := []\<rparr>, this)"] show ?thesis
    by (simp add: next_turn_def)
qed

lemma update_inv:
  assumes "session_inv (w, this)" and "''id'' \<notin> fst ` set p"
  shows "session_inv (update p (w, this))"
proof -
  have id: "map_of (assign (pendingUpdate this) p) ''id'' = Some (Num (sid this))"
    using assms by (simp add: map_of_assign session_inv_def map_add_def map_of_eq_None_iff[THEN iffD2])
  show ?thesis
  proof (cases "disposed this")
    case True
    with assms show ?thesis by (simp add: update_disposed)
  next
    case False
    show ?thesis
    proof (cases "visible this")
      case True
      with False assms id show ?thesis
        by (simp add: update_visible session_inv_def)
    next
      case v: False
      with False assms id show ?thesis
        by (simp add: update_invisible session_inv_def)
    qed
  qed
qed

lemma show_inv: "session_inv (w, this) \<Longrightarrow> session_inv (show' (w, this))"
  using update_inv[of w "this\<lparr>visible := True\<rparr>" "[(''visible'', Bool True)]"]
  by (simp add: show'_def session_inv_def)

lemma hide_inv: "session_inv (w, this) \<Longrightarrow> session_inv (hide (w, this))"
  using update_inv[of w "this\<lparr>visible := False\<rparr>" "[(''visible'', Bool False)]"]
  by (simp add: hide_def session_inv_def)

lemma dispose_inv: "session_inv (w, this) \<Longrightarrow> session_inv (dispose (w, this))"
  by (cases "updateTimeout this")
     (auto simp add: dispose_def session_inv_def Let_def clearTimeout_def)

lemma fst_absf: "fst (absf st) = fst st"
  by (cases st) (simp add: absf_def)

lemma snd_absf:
  "sid (snd (absf st)) = sid (snd st)"
  "visible (snd (absf st)) = visible (snd st)"
  "disposed (snd (absf st)) = disposed (snd st)"
  "pendingUpdate (snd (absf st)) = pendingUpdate (snd st)"
  "updateTimeout (snd (absf st)) = updateTimeout (snd st)"
  "onDidHideEmitter (snd (absf st)) = onDidHideEmitter (snd st)"
  by (cases st; simp add: absf_def bookkeeping_def)+

lemma absf_step:
  assumes "\<And>x st. absf (wr x st) = update [stg x] (absf st)"
  shows "absf (step wr a st) = step (\<lambda>kv. update [kv]) (map_action stg a) (absf st)"
  by (cases a) (simp_all add: assms absf_show absf_hide absf_dispose absf_next_turn)

lemma absf_run:
  assumes "\<And>x st. absf (wr x st) = update [stg x] (absf st)"
  shows "absf (run wr acts st) = run (\<lambda>kv. update [kv]) (map (map_action stg) acts) (absf st)"
  unfolding run_def
  by (induction acts arbitrary: st) (simp_all add: absf_step[of wr stg, OF assms])

lemma step_inv:
  assumes "\<And>x st. session_inv st \<Longrightarrow> session_inv (wr x st)" and "session_inv st"
  shows "session_inv (step wr a st)"
  using assms
  by (cases st; cases a) (simp_all add: show_inv hide_inv dispose_inv next_turn_inv)

lemma run_inv:
  assumes "\<And>x st. session_inv st \<Longrightarrow> session_inv (wr x st)" and "session_inv st"
  shows "session_inv (run wr acts st)"
  using assms(2) unfolding run_def
  by (induction acts arbitrary: st) (simp_all add: step_inv[of wr, OF assms(1)])

lemma qp_staged_key: "fst (qp_staged x) \<noteq> ''id''"
  by (cases x) simp_all

lemma ib_staged_key: "fst (ib_staged x) \<noteq> ''id''"
  by (cases x) simp_all

lemma qp_write_inv:
  assumes "session_inv st"
  shows "session_inv (qp_write x st)"
proof -
  have "session_inv (update [qp_staged x] (fst (absf st), snd (absf st)))"
    by (rule update_inv) (simp_all add: session_inv_absf assms qp_staged_key[symmetric])
  then have "session_inv (absf (qp_write x st))"
    by (simp add: absf_qp_write)
  then show ?thesis by (simp only: session_inv_absf)
qed

lemma ib_write_inv:
  assumes "session_inv st"
  shows "session_inv (ib_write x st)"
proof -
  have "session_inv (update [ib_staged x] (fst (absf st), snd (absf st)))"
    by (rule update_inv) (simp_all add: session_inv_absf assms ib_staged_key[symmetric])
  then have "session_inv (absf (ib_write x st))"
    by (simp add: absf_ib_write)
  then show ?thesis by (simp only: session_inv_absf)
qed

lemma createQuickPick_inv: "timers w0 = [] \<Longrightarrow> session_inv (createQuickPick ext w0)"
  by (simp add: createQuickPick_def session_inv_def Let_def new_ExtHostQuickPick_def
      new_ExtHostQuickInput_def ExtHostQuickInput.defs)

lemma createInputBox_inv: "timers w0 = [] \<Longrightarrow> session_inv (createInputBox ext w0)"
  by (simp add: createInputBox_def session_inv_def Let_def new_ExtHostInputBox_def
      new_ExtHostQuickInput_def ExtHostQuickInput.defs)

lemma base_writes:
  assumes "fold (\<lambda>kv. update [kv]) kvs (w, this) = (w', this')"
      and "visible this" "\<not> disposed this"
      and "set (timers w) \<subseteq> set_option (updateTimeout this)"
  shows "proxy w' = proxy w \<and> sessions w' = sessions w \<and>
         pendingUpdate this' = assign (pendingUpdate this) kvs \<and>
         visible this' \<and> \<not> disposed this' \<and> sid this' = sid this \<and>
         (kvs \<noteq> [] \<longrightarrow> (\<exists>t. timers w' = [t]))"
  using assms
proof (induction kvs arbitrary: w this)
  case Nil
  then show ?case by (simp add: assign_def)
next
  case (Cons kv kvs)
  let ?w1 = "w\<lparr>timers := [nextTimer w], nextTimer := Suc (nextTimer w)\<rparr>"
  let ?t1 = "this\<lparr>pendingUpdate := assign (pendingUpdate this) [kv],
                   updateTimeout := Some (nextTimer w)\<rparr>"
  have u: "update [kv] (w, this) = (?w1, ?t1)"
    using Cons.prems by (simp add: update_visible)
  have "fold (\<lambda>kv. update [kv]) kvs (?w1, ?t1) = (w', this')"
    using Cons.prems(1) u by simp
  from Cons.IH[OF this] Cons.prems(2,3)
  have ih: "proxy w' = proxy w \<and> sessions w' = sessions w \<and>
         pendingUpdate this' = assign (assign (pendingUpdate this) [kv]) kvs \<and>
         visible this' \<and> \<not> disposed this' \<and> sid this' = sid this \<and>
         (kvs \<noteq> [] \<longrightarrow> (\<exists>t. timers w' = [t]))"
    by simp
  have "kvs = [] \<Longrightarrow> timers w' = [nextTimer w]"
    using Cons.prems(1) u by auto
  with ih show ?case
    by (cases kvs) (simp_all add: assign_append)
qed

lemma run_writes: "run wr (map Write xs) st = fold wr xs st"
  unfolding run_def by (induction xs arbitrary: st) simp_all

lemma writes_effect:
  assumes hom: "\<And>x st. absf (wr x st) = update [stg x] (absf st)"
      and tm: "set (timers w) \<subseteq> set_option (updateTimeout this)"
      and live: "visible this" "\<not> disposed this"
      and r1: "run wr (map Write ws) (w, this) = (w1, this1)"
  shows "proxy w1 = proxy w \<and> sessions w1 = sessions w \<and>
         pendingUpdate this1 = assign (pendingUpdate this) (map stg ws) \<and>
         visible this1 \<and> \<not> disposed this1 \<and> sid this1 = sid this \<and>
         (ws \<noteq> [] \<longrightarrow> (\<exists>t. timers w1 = [t]))"
proof -
  have m: "map (map_action stg) (map Write ws) = map Write (map stg ws)"
    by simp
  have "absf (w1, this1) = run (\<lambda>kv. update [kv]) (map Write (map stg ws)) (absf (w, this))"
    using absf_run[of wr stg, OF hom, of "map Write ws" "(w, this)"] r1 by (simp only: m)
  then have f: "fold (\<lambda>kv. update [kv]) (map stg ws) (w, bookkeeping this) = (w1, bookkeeping this1)"
    by (simp only: run_writes absf_def prod.case)
  from base_writes[OF f] tm live show ?thesis
    by (simp add: bookkeeping_def)
qed

lemma writes_flush_once:
  assumes hom: "\<And>x st. absf (wr x st) = update [stg x] (absf st)"
      and key: "\<And>x. fst (stg x) \<noteq> ''id''"
      and inv: "session_inv (w, this)"
      and live: "visible this" "\<not> disposed this" and ne: "ws \<noteq> []"
      and r1: "run wr (map Write ws) (w, this) = (w1, this1)"
      and r2: "next_turn (w1, this1) = (w2, this2)"
  shows "proxy w2 = proxy w @ [Proxy_createOrUpdate (pendingUpdate this1)] \<and>
         timers w2 = [] \<and>
         map_of (pendingUpdate this1) = map_of (pendingUpdate this) ++ map_of (rev (map stg ws)) \<and>
         map_of (pendingUpdate this1) ''id'' = Some (Num (sid this)) \<and>
         pendingUpdate this2 = [(''id'', Num (sid this))]"
proof -
  from inv have tm: "set (timers w) \<subseteq> set_option (updateTimeout this)"
    and idk: "map_of (pendingUpdate this) ''id'' = Some (Num (sid this))"
    by (simp_all add: session_inv_def)
  from writes_effect[of wr stg, OF hom tm live r1] ne
  obtain t where e: "proxy w1 = proxy w" "pendingUpdate this1 = assign (pendingUpdate this) (map stg ws)"
    "\<not> disposed this1" "sid this1 = sid this" "timers w1 = [t]"
    by auto
  have "''id'' \<notin> fst ` set (map stg ws)"
  proof
    assume "''id'' \<in> fst ` set (map stg ws)"
    then obtain x where "fst (stg x) = ''id''"
      by (auto simp: image_iff)
    with key show False by blast
  qed
  then have "map_of (rev (map stg ws)) ''id'' = None"
    by (simp add: map_of_eq_None_iff)
  with idk e(2) have idk1: "map_of (pendingUpdate this1) ''id'' = Some (Num (sid this))"
    by (simp add: map_of_assign map_add_def)
  from next_turn_single[OF e(5) e(3)] r2 e idk1 show ?thesis
    by (auto simp add: map_of_assign)
qed

section \<open>Evaluating concrete scenarios\<close>

lemmas session_defs =
  createQuickPick_def createInputBox_def new_ExtHostQuickPick_def new_ExtHostInputBox_def
  new_ExtHostQuickInput_def new_Emitter_def initial_world_def
  ExtHostQuickInput.defs ExtHostQuickPick.defs ExtHostInputBox.defs
  run_def show'_def hide_def dispose_def update_def flush_def next_turn_def
  clearTimeout_def setTimeout_def assign_def dispose_emitter_def fire_def Let_def
  set_enabled_def set_busy_def qp_set_value_def qp_set_placeholder_def qp_set_commands_def
  set_items_def set_canSelectMany_def set_builtInFilter_def
  ib_set_value_def ib_set_placeholder_def ib_set_commands_def
  set_password_def set_prompt_def set_validationMessage_def

section \<open>Hiding a visible session\<close>

text \<open>
  \<open>hide\<close> clears \<open>_visible\<close> before it calls \<open>update\<close>, so \<open>update\<close> stages
  \<open>visible: false\<close> and returns at its visibility gate: on a visible session with
  no timer set, nothing is scheduled and nothing is sent.
\<close>

lemma hide_schedules_nothing:
  assumes "\<not> disposed this"
  shows "hide (w, this) =
     (w, this\<lparr>visible := False,
               pendingUpdate := AList.update ''visible'' (Bool False) (pendingUpdate this)\<rparr>)"
  using assms by (simp add: hide_def update_invisible assign_single)

text \<open>
  Claim C2. A quick pick is created, shown, and its first update is flushed; \<open>hide\<close> is
  then called on the visible session and the event loop runs on. The host has received the
  one message of \<open>show\<close> and nothing else: \<open>visible: false\<close> stays in the pending update
  and no timer is set that would deliver it.
\<close>

theorem hide_of_visible_session_not_delivered:
  "(let st = run qp_write [Show, Turn, Hide, Turn] (createQuickPick ''ext'' initial_world)
    in proxy (fst st) = [Proxy_createOrUpdate [(''id'', Num 1), (''visible'', Bool True)]] \<and>
       pendingUpdate (snd st) = [(''id'', Num 1), (''visible'', Bool False)] \<and>
       timers (fst st) = [] \<and> \<not> visible (snd st))"
  by (simp add: session_defs)

section \<open>Batching of property writes\<close>

text \<open>
  Every state that a quick pick or an input box reaches after its creation satisfies the
  session invariant, whatever the extension calls and whenever the timers fire.
\<close>

lemma qp_reachable_inv:
  "timers w0 = [] \<Longrightarrow> session_inv (run qp_write acts (createQuickPick ext w0))"
  by (rule run_inv) (simp_all add: qp_write_inv createQuickPick_inv)

lemma ib_reachable_inv:
  "timers w0 = [] \<Longrightarrow> session_inv (run ib_write acts (createInputBox ext w0))"
  by (rule run_inv) (simp_all add: ib_write_inv createInputBox_inv)

lemma writes_flush_once':
  assumes hom: "\<And>x st. absf (wr x st) = update [stg x] (absf st)"
      and key: "\<And>x. fst (stg x) \<noteq> ''id''"
      and inv: "session_inv st"
      and live: "visible (snd st)" "\<not> disposed (snd st)" and ne: "ws \<noteq> []"
  shows "(let st1 = run wr (map Write ws) st; st2 = next_turn st1
          in proxy (fst st2) = proxy (fst st) @ [Proxy_createOrUpdate (pendingUpdate (snd st1))] \<and>
             map_of (pendingUpdate (snd st1)) =
               map_of (pendingUpdate (snd st)) ++ map_of (rev (map stg ws)) \<and>
             map_of (pendingUpdate (snd st1)) ''id'' = Some (Num (sid (snd st))) \<and>
             pendingUpdate (snd st2) = [(''id'', Num (sid (snd st)))] \<and>
             timers (fst st2) = [])"
proof -
  obtain w this where st: "st = (w, this)" by (cases st)
  obtain w1 this1 where r1: "run wr (map Write ws) (w, this) = (w1, this1)"
    by (cases "run wr (map Write ws) (w, this)")
  obtain w2 this2 where r2: "next_turn (w1, this1) = (w2, this2)"
    by (cases "next_turn (w1, this1)")
  have c: "proxy w2 = proxy w @ [Proxy_createOrUpdate (pendingUpdate this1)] \<and>
         timers w2 = [] \<and>
         map_of (pendingUpdate this1) = map_of (pendingUpdate this) ++ map_of (rev (map stg ws)) \<and>
         map_of (pendingUpdate this1) ''id'' = Some (Num (sid this)) \<and>
         pendingUpdate this2 = [(''id'', Num (sid this))]"
    using inv live st
    by (intro writes_flush_once[of wr stg, OF hom key _ _ _ ne r1 r2]) simp_all
  show ?thesis
    unfolding Let_def st r1 r2 fst_conv snd_conv using c by blast
qed

text \<open>
  Claim C1. Take a session in any state it can reach after its creation, visible and not
  disposed, and any non-empty sequence of property setter calls made on it within one task
  (no timer fires in between). When the event loop then runs the timers, the host receives
  exactly one more call, a \<open>$createOrUpdate\<close> whose message is the pending update as it
  stood after the last setter call. The message holds what was pending before, overridden
  by the writes of the task, of which the last one to each property wins (\<open>map_of\<close> of
  the reversed list of writes finds the last write to a property), and it holds the
  session id. After the flush the pending update is the session id alone and no timer is
  set. The first conjunct is the statement for a quick pick, the second for an input box.
\<close>

theorem setter_calls_batched_into_one_message:
  "(timers w0 = [] \<and> st = run qp_write acts (createQuickPick ext w0) \<and>
    visible (snd st) \<and> \<not> disposed (snd st) \<and> ws \<noteq> [] \<longrightarrow>
      (let st1 = run qp_write (map Write ws) st; st2 = next_turn st1
       in proxy (fst st2) = proxy (fst st) @ [Proxy_createOrUpdate (pendingUpdate (snd st1))] \<and>
          map_of (pendingUpdate (snd st1)) =
            map_of (pendingUpdate (snd st)) ++ map_of (rev (map qp_staged ws)) \<and>
          map_of (pendingUpdate (snd st1)) ''id'' = Some (Num (sid (snd st))) \<and>
          pendingUpdate (snd st2) = [(''id'', Num (sid (snd st)))] \<and>
          timers (fst st2) = [])) \<and>
   (timers v0 = [] \<and> bt = run ib_write bacts (createInputBox bext v0) \<and>
    visible (snd bt) \<and> \<not> disposed (snd bt) \<and> bs \<noteq> [] \<longrightarrow>
      (let bt1 = run ib_write (map Write bs) bt; bt2 = next_turn bt1
       in proxy (fst bt2) = proxy (fst bt) @ [Proxy_createOrUpdate (pendingUpdate (snd bt1))] \<and>
          map_of (pendingUpdate (snd bt1)) =
            map_of (pendingUpdate (snd bt)) ++ map_of (rev (map ib_staged bs)) \<and>
          map_of (pendingUpdate (snd bt1)) ''id'' = Some (Num (sid (snd bt))) \<and>
          pendingUpdate (snd bt2) = [(''id'', Num (sid (snd bt)))] \<and>
          timers (fst bt2) = []))"
proof (intro conjI impI)
  assume a: "timers w0 = [] \<and> st = run qp_write acts (createQuickPick ext w0) \<and>
    visible (snd st) \<and> \<not> disposed (snd st) \<and> ws \<noteq> []"
  then have "session_inv st" by (simp add: qp_reachable_inv)
  moreover from a have "visible (snd st)" "\<not> disposed (snd st)" "ws \<noteq> []" by blast+
  ultimately show "(let st1 = run qp_write (map Write ws) st; st2 = next_turn st1
       in proxy (fst st2) = proxy (fst st) @ [Proxy_createOrUpdate (pendingUpdate (snd st1))] \<and>
          map_of (pendingUpdate (snd st1)) =
            map_of (pendingUpdate (snd st)) ++ map_of (rev (map qp_staged ws)) \<and>
          map_of (pendingUpdate (snd st1)) ''id'' = Some (Num (sid (snd st))) \<and>
          pendingUpdate (snd st2) = [(''id'', Num (sid (snd st)))] \<and>
          timers (fst st2) = [])"
    by (intro writes_flush_once' absf_qp_write qp_staged_key)
next
  assume a: "timers v0 = [] \<and> bt = run ib_write bacts (createInputBox bext v0) \<and>
    visible (snd bt) \<and> \<not> disposed (snd bt) \<and> bs \<noteq> []"
  then have "session_inv bt" by (simp add: ib_reachable_inv)
  moreover from a have "visible (snd bt)" "\<not> disposed (snd bt)" "bs \<noteq> []" by blast+
  ultimately show "(let bt1 = run ib_write (map Write bs) bt; bt2 = next_turn bt1
       in proxy (fst bt2) = proxy (fst bt) @ [Proxy_createOrUpdate (pendingUpdate (snd bt1))] \<and>
          map_of (pendingUpdate (snd bt1)) =
            map_of (pendingUpdate (snd bt)) ++ map_of (rev (map ib_staged bs)) \<and>
          map_of (pendingUpdate (snd bt1)) ''id'' = Some (Num (sid (snd bt))) \<and>
          pendingUpdate (snd bt2) = [(''id'', Num (sid (snd bt)))] \<and>
          timers (fst bt2) = [])"
    by (intro writes_flush_once' absf_ib_write ib_staged_key)
qed

text \<open>
  The theorem at work: a quick pick that was shown, flushed and then had \<open>busy\<close> written,
  and an input box that was just shown; two of the three writes to the quick pick go to
  the same property.
\<close>

theorem setter_calls_batched_into_one_message_witness:
  "(let st = run qp_write [Show, Turn, Write (QP_busy False)] (createQuickPick ''ext'' initial_world);
        st1 = run qp_write (map Write [QP_value ''a'', QP_busy True, QP_value ''b'']) st;
        st2 = next_turn st1
    in visible (snd st) \<and> \<not> disposed (snd st) \<and>
       pendingUpdate (snd st) = [(''id'', Num 1), (''busy'', Bool False)] \<and>
       pendingUpdate (snd st1) = [(''id'', Num 1), (''busy'', Bool True), (''value'', Str ''b'')] \<and>
       proxy (fst st2) = proxy (fst st) @
         [Proxy_createOrUpdate [(''id'', Num 1), (''busy'', Bool True), (''value'', Str ''b'')]] \<and>
       pendingUpdate (snd st2) = [(''id'', Num 1)] \<and> timers (fst st2) = []) \<and>
   (let bt = run ib_write [Show] (createInputBox ''ext'' initial_world);
        bt1 = run ib_write (map Write [IB_prompt ''p'', IB_prompt ''q'']) bt;
        bt2 = next_turn bt1
    in visible (snd bt) \<and> \<not> disposed (snd bt) \<and>
       proxy (fst bt2) = proxy (fst bt) @
         [Proxy_createOrUpdate [(''id'', Num 1), (''visible'', Bool True), (''prompt'', Str ''q'')]] \<and>
       pendingUpdate (snd bt2) = [(''id'', Num 1)] \<and> timers (fst bt2) = [])"
  using setter_calls_batched_into_one_message
    [of initial_world
        "run qp_write [Show, Turn, Write (QP_busy False)] (createQuickPick ''ext'' initial_world)"
        "[Show, Turn, Write (QP_busy False)]" "''ext''"
        "[QP_value ''a'', QP_busy True, QP_value ''b'']"
        initial_world
        "run ib_write [Show] (createInputBox ''ext'' initial_world)"
        "[Show]" "''ext''" "[IB_prompt ''p'', IB_prompt ''q'']"]
  by (simp add: session_defs)

section \<open>Showing a session\<close>

text \<open>
  While a session is hidden, a setter call stages its property and sets no timer.
\<close>

lemma base_writes_invisible:
  assumes "\<not> visible this" "\<not> disposed this"
  shows "fold (\<lambda>kv. update [kv]) kvs (w, this) =
           (w, this\<lparr>pendingUpdate := assign (pendingUpdate this) kvs\<rparr>)"
  using assms
proof (induction kvs arbitrary: this)
  case Nil
  then show ?case by (simp add: assign_def)
next
  case (Cons kv kvs)
  from Cons.prems Cons.IH[of "this\<lparr>pendingUpdate := assign (pendingUpdate this) [kv]\<rparr>"]
  show ?case by (simp add: update_invisible assign_append)
qed

lemma writes_invisible:
  assumes hom: "\<And>x st. absf (wr x st) = update [stg x] (absf st)"
      and hid: "\<not> visible this" "\<not> disposed this"
      and r1: "run wr (map Write ws) (w, this) = (w1, this1)"
  shows "w1 = w \<and> pendingUpdate this1 = assign (pendingUpdate this) (map stg ws) \<and>
         \<not> visible this1 \<and> \<not> disposed this1 \<and> sid this1 = sid this \<and>
         updateTimeout this1 = updateTimeout this"
proof -
  have m: "map (map_action stg) (map Write ws) = map Write (map stg ws)"
    by simp
  have "absf (w1, this1) = run (\<lambda>kv. update [kv]) (map Write (map stg ws)) (absf (w, this))"
    using absf_run[of wr stg, OF hom, of "map Write ws" "(w, this)"] r1 by (simp only: m)
  then have f: "fold (\<lambda>kv. update [kv]) (map stg ws) (w, bookkeeping this) = (w1, bookkeeping this1)"
    by (simp only: run_writes absf_def prod.case)
  have "\<not> visible (bookkeeping this)" "\<not> disposed (bookkeeping this)"
    using hid by (simp_all add: bookkeeping_def)
  from base_writes_invisible[OF this, of "map stg ws" w] f hid show ?thesis
    by (simp add: bookkeeping_def)
qed

lemma show_after_writes:
  assumes hom: "\<And>x st. absf (wr x st) = update [stg x] (absf st)"
      and hid: "\<not> visible (snd st0)" "\<not> disposed (snd st0)"
      and idle: "timers (fst st0) = []"
  shows "(let st1 = run wr (map Write ws) st0; st2 = show' st1; st3 = next_turn st2
          in visible (snd st2) \<and>
             proxy (fst st1) = proxy (fst st0) \<and>
             proxy (fst st3) = proxy (fst st0) @ [Proxy_createOrUpdate (pendingUpdate (snd st2))] \<and>
             pendingUpdate (snd st2) =
               assign (pendingUpdate (snd st0)) (map stg ws @ [(''visible'', Bool True)]) \<and>
             pendingUpdate (snd st3) = [(''id'', Num (sid (snd st0)))] \<and>
             timers (fst st3) = [])"
proof -
  obtain w this where st0: "st0 = (w, this)" by (cases st0)
  obtain w1 this1 where r1: "run wr (map Write ws) (w, this) = (w1, this1)"
    by (cases "run wr (map Write ws) (w, this)")
  from writes_invisible[of wr stg, OF hom _ _ r1] hid st0
  have e: "w1 = w" "pendingUpdate this1 = assign (pendingUpdate this) (map stg ws)"
    "\<not> disposed this1" "sid this1 = sid this"
    by simp_all
  have s: "show' (w1, this1) =
     (w\<lparr>timers := [nextTimer w], nextTimer := Suc (nextTimer w)\<rparr>,
      this1\<lparr>visible := True,
             pendingUpdate := assign (pendingUpdate this) (map stg ws @ [(''visible'', Bool True)]),
             updateTimeout := Some (nextTimer w)\<rparr>)"
    using e idle st0 by (simp add: show'_def update_visible assign_append)
  show ?thesis
    unfolding Let_def st0 r1 s fst_conv snd_conv
    using e by (simp add: next_turn_single[where t = "nextTimer w"])
qed

lemma assign_show:
  "map_of (assign [(''id'', i)] (kvs @ [(''visible'', Bool True)])) =
     ([''id'' \<mapsto> i] ++ map_of (rev kvs))(''visible'' \<mapsto> Bool True)"
  by (simp add: map_of_assign fun_eq_iff map_add_def)

text \<open>
  Claim C5. A session is created in a world with no timer set, any setter calls (none, in
  the case of the claim's first sentence) are made on it, and \<open>show\<close> is called. The
  session is then visible in its local state; nothing was sent before \<open>show\<close>; and when the
  timers fire the host receives exactly one call, a \<open>$createOrUpdate\<close> with the pending
  update as \<open>show\<close> left it: the session id, the last value written to each property before
  \<open>show\<close>, and \<open>visible: true\<close>. Without earlier writes the message is the session id
  and \<open>visible: true\<close>. The first conjunct is the statement for a quick pick, the second for
  an input box.
\<close>

theorem show_delivers_visible_and_earlier_writes:
  "(timers w0 = [] \<longrightarrow>
      (let st0 = createQuickPick ext w0; st1 = run qp_write (map Write ws) st0;
           st2 = show' st1; st3 = next_turn st2
       in visible (snd st2) \<and>
          proxy (fst st1) = proxy w0 \<and>
          proxy (fst st3) = proxy w0 @ [Proxy_createOrUpdate (pendingUpdate (snd st2))] \<and>
          map_of (pendingUpdate (snd st2)) =
            ([''id'' \<mapsto> Num (sid (snd st0))] ++ map_of (rev (map qp_staged ws)))
              (''visible'' \<mapsto> Bool True) \<and>
          (ws = [] \<longrightarrow> pendingUpdate (snd st2) =
            [(''id'', Num (sid (snd st0))), (''visible'', Bool True)]))) \<and>
   (timers v0 = [] \<longrightarrow>
      (let bt0 = createInputBox bext v0; bt1 = run ib_write (map Write bs) bt0;
           bt2 = show' bt1; bt3 = next_turn bt2
       in visible (snd bt2) \<and>
          proxy (fst bt1) = proxy v0 \<and>
          proxy (fst bt3) = proxy v0 @ [Proxy_createOrUpdate (pendingUpdate (snd bt2))] \<and>
          map_of (pendingUpdate (snd bt2)) =
            ([''id'' \<mapsto> Num (sid (snd bt0))] ++ map_of (rev (map ib_staged bs)))
              (''visible'' \<mapsto> Bool True) \<and>
          (bs = [] \<longrightarrow> pendingUpdate (snd bt2) =
            [(''id'', Num (sid (snd bt0))), (''visible'', Bool True)])))"
proof (intro conjI impI)
  assume idle: "timers w0 = []"
  let ?st0 = "createQuickPick ext w0"
  have c: "\<not> visible (snd ?st0)" "\<not> disposed (snd ?st0)" "timers (fst ?st0) = []"
    "proxy (fst ?st0) = proxy w0" "pendingUpdate (snd ?st0) = [(''id'', Num (sid (snd ?st0)))]"
    using idle
    by (simp_all add: createQuickPick_def Let_def new_ExtHostQuickPick_def
        new_ExtHostQuickInput_def ExtHostQuickInput.defs)
  let ?st2 = "show' (run qp_write (map Write ws) ?st0)"
  from show_after_writes[of qp_write qp_staged ?st0 ws, OF absf_qp_write c(1,2,3)] c(4,5)
  have f: "visible (snd ?st2)" "proxy (fst (run qp_write (map Write ws) ?st0)) = proxy w0"
    "proxy (fst (next_turn ?st2)) = proxy w0 @ [Proxy_createOrUpdate (pendingUpdate (snd ?st2))]"
    "pendingUpdate (snd ?st2) =
       assign [(''id'', Num (sid (snd ?st0)))] (map qp_staged ws @ [(''visible'', Bool True)])"
    by (simp_all add: Let_def)
  have g: "ws = [] \<longrightarrow> pendingUpdate (snd ?st2) =
            [(''id'', Num (sid (snd ?st0))), (''visible'', Bool True)]"
    using f(4) by (auto simp: assign_def)
  from f g
  show "(let st0 = createQuickPick ext w0; st1 = run qp_write (map Write ws) st0;
           st2 = show' st1; st3 = next_turn st2
       in visible (snd st2) \<and>
          proxy (fst st1) = proxy w0 \<and>
          proxy (fst st3) = proxy w0 @ [Proxy_createOrUpdate (pendingUpdate (snd st2))] \<and>
          map_of (pendingUpdate (snd st2)) =
            ([''id'' \<mapsto> Num (sid (snd st0))] ++ map_of (rev (map qp_staged ws)))
              (''visible'' \<mapsto> Bool True) \<and>
          (ws = [] \<longrightarrow> pendingUpdate (snd st2) =
            [(''id'', Num (sid (snd st0))), (''visible'', Bool True)]))"
    unfolding Let_def by (simp only: assign_show[symmetric] simp_thms)
next
  assume idle: "timers v0 = []"
  let ?bt0 = "createInputBox bext v0"
  have c: "\<not> visible (snd ?bt0)" "\<not> disposed (snd ?bt0)" "timers (fst ?bt0) = []"
    "proxy (fst ?bt0) = proxy v0" "pendingUpdate (snd ?bt0) = [(''id'', Num (sid (snd ?bt0)))]"
    using idle
    by (simp_all add: createInputBox_def Let_def new_ExtHostInputBox_def
        new_ExtHostQuickInput_def ExtHostQuickInput.defs)
  let ?st2 = "show' (run ib_write (map Write bs) ?bt0)"
  from show_after_writes[of ib_write ib_staged ?bt0 bs, OF absf_ib_write c(1,2,3)] c(4,5)
  have f: "visible (snd ?st2)" "proxy (fst (run ib_write (map Write bs) ?bt0)) = proxy v0"
    "proxy (fst (next_turn ?st2)) = proxy v0 @ [Proxy_createOrUpdate (pendingUpdate (snd ?st2))]"
    "pendingUpdate (snd ?st2) =
       assign [(''id'', Num (sid (snd ?bt0)))] (map ib_staged bs @ [(''visible'', Bool True)])"
    by (simp_all add: Let_def)
  have g: "bs = [] \<longrightarrow> pendingUpdate (snd ?st2) =
            [(''id'', Num (sid (snd ?bt0))), (''visible'', Bool True)]"
    using f(4) by (auto simp: assign_def)
  from f g
  show "(let bt0 = createInputBox bext v0; bt1 = run ib_write (map Write bs) bt0;
           bt2 = show' bt1; bt3 = next_turn bt2
       in visible (snd bt2) \<and>
          proxy (fst bt1) = proxy v0 \<and>
          proxy (fst bt3) = proxy v0 @ [Proxy_createOrUpdate (pendingUpdate (snd bt2))] \<and>
          map_of (pendingUpdate (snd bt2)) =
            ([''id'' \<mapsto> Num (sid (snd bt0))] ++ map_of (rev (map ib_staged bs)))
              (''visible'' \<mapsto> Bool True) \<and>
          (bs = [] \<longrightarrow> pendingUpdate (snd bt2) =
            [(''id'', Num (sid (snd bt0))), (''visible'', Bool True)]))"
    unfolding Let_def by (simp only: assign_show[symmetric] simp_thms)
qed

text \<open>
  The theorem at work, without earlier writes and with them, for both kinds of session.
\<close>

theorem show_delivers_visible_and_earlier_writes_witness:
  "timers initial_world = [] \<and>
   proxy (fst (next_turn (show' (createQuickPick ''ext'' initial_world)))) =
     [Proxy_createOrUpdate [(''id'', Num 1), (''visible'', Bool True)]] \<and>
   proxy (fst (next_turn (show' (createInputBox ''ext'' initial_world)))) =
     [Proxy_createOrUpdate [(''id'', Num 1), (''visible'', Bool True)]] \<and>
   proxy (fst (next_turn (show' (run qp_write
       (map Write [QP_value ''a'', QP_canSelectMany True, QP_value ''b''])
       (createQuickPick ''ext'' initial_world))))) =
     [Proxy_createOrUpdate
        [(''id'', Num 1), (''value'', Str ''b''), (''canSelectMany'', Bool True),
         (''visible'', Bool True)]] \<and>
   proxy (fst (next_turn (show' (run ib_write
       (map Write [IB_password True, IB_prompt ''p''])
       (createInputBox ''ext'' initial_world))))) =
     [Proxy_createOrUpdate
        [(''id'', Num 1), (''password'', Bool True), (''prompt'', Str ''p''),
         (''visible'', Bool True)]]"
  using show_delivers_visible_and_earlier_writes
          [of initial_world "''ext''" "[]" initial_world "''ext''" "[]"]
        show_delivers_visible_and_earlier_writes
          [of initial_world "''ext''" "[QP_value ''a'', QP_canSelectMany True, QP_value ''b'']"
              initial_world "''ext''" "[IB_password True, IB_prompt ''p'']"]
  by (simp add: session_defs)

section \<open>Disposal\<close>

lemma dispose_live:
  assumes "\<not> disposed this"
  shows "dispose (w, this) =
     ((clearTimeout (updateTimeout this) w)
        \<lparr>sessions := AList.delete (sid this) (sessions w),
         proxy := proxy w @ [Proxy_dispose (sid this)]\<rparr>,
      this\<lparr>disposed := True, onDidHideEmitter := dispose_emitter (onDidHideEmitter this)\<rparr>)"
  using assms
  by (cases "updateTimeout this") (simp_all add: dispose_def Let_def clearTimeout_def)

lemma dispose_disposed: "disposed this \<Longrightarrow> dispose (w, this) = (w, this)"
  by (simp add: dispose_def)

text \<open>
  Claim C3, as stated, fails on the "hidden" notification. \<open>dispose\<close> calls
  \<open>this._onDidHideEmitter.dispose()\<close>: it tears the channel down and does not fire it, and
  nothing else in the source fires it. After a quick pick is created and disposed twice,
  the number of \<open>onDidHide\<close> events delivered is zero, not one.
\<close>

theorem dispose_twice_fires_no_hidden_notification:
  "\<not> (length (delivered (onDidHideEmitter
          (snd (dispose (dispose (createQuickPick ''ext'' initial_world)))))) = 1)"
  by (simp add: session_defs)

text \<open>
  Claim C3, amended. For a session of either class that is not yet disposed, calling
  \<open>dispose\<close> twice leaves the state that the first call produced: the second call changes
  nothing. The first call marks the session disposed, makes exactly one \<open>$dispose\<close> call
  with the session id, removes the session id from the registry of the owner, removes the
  timer the session had set from the timers of the event loop (and sets none), and tears
  the \<open>onDidHide\<close> emitter down without delivering an event on it. The model has no
  failing branch in \<open>dispose\<close>, as the source has no throw.
\<close>

theorem dispose_twice:
  fixes st :: "world \<times> 'a ExtHostQuickInput_scheme"
  shows "\<not> disposed (snd st) \<longrightarrow>
     (let st1 = dispose st; st2 = dispose st1
      in st2 = st1 \<and> disposed (snd st1) \<and>
         proxy (fst st1) = proxy (fst st) @ [Proxy_dispose (sid (snd st))] \<and>
         sessions (fst st1) = AList.delete (sid (snd st)) (sessions (fst st)) \<and>
         map_of (sessions (fst st1)) (sid (snd st)) = None \<and>
         (\<forall>t. updateTimeout (snd st) = Some t \<longrightarrow> t \<notin> set (timers (fst st1))) \<and>
         set (timers (fst st1)) \<subseteq> set (timers (fst st)) \<and>
         torn_down (onDidHideEmitter (snd st1)) \<and>
         delivered (onDidHideEmitter (snd st1)) = delivered (onDidHideEmitter (snd st)))"
proof
  assume live: "\<not> disposed (snd st)"
  obtain w this where st: "st = (w, this)" by (cases st)
  from live st have d: "dispose st =
     ((clearTimeout (updateTimeout this) w)
        \<lparr>sessions := AList.delete (sid this) (sessions w),
         proxy := proxy w @ [Proxy_dispose (sid this)]\<rparr>,
      this\<lparr>disposed := True, onDidHideEmitter := dispose_emitter (onDidHideEmitter this)\<rparr>)"
    by (simp add: dispose_live)
  have t: "set (timers (clearTimeout (updateTimeout this) w)) \<subseteq> set (timers w)"
    "\<forall>t. updateTimeout this = Some t \<longrightarrow> t \<notin> set (timers (clearTimeout (updateTimeout this) w))"
    by (cases "updateTimeout this"; simp add: clearTimeout_def)+
  show "let st1 = dispose st; st2 = dispose st1
      in st2 = st1 \<and> disposed (snd st1) \<and>
         proxy (fst st1) = proxy (fst st) @ [Proxy_dispose (sid (snd st))] \<and>
         sessions (fst st1) = AList.delete (sid (snd st)) (sessions (fst st)) \<and>
         map_of (sessions (fst st1)) (sid (snd st)) = None \<and>
         (\<forall>t. updateTimeout (snd st) = Some t \<longrightarrow> t \<notin> set (timers (fst st1))) \<and>
         set (timers (fst st1)) \<subseteq> set (timers (fst st)) \<and>
         torn_down (onDidHideEmitter (snd st1)) \<and>
         delivered (onDidHideEmitter (snd st1)) = delivered (onDidHideEmitter (snd st))"
    unfolding Let_def d using t
    by (simp add: st dispose_disposed dispose_emitter_def delete_conv')
qed

text \<open>
  The theorem at work on a quick pick that is shown and has a flush pending: the timer is
  gone after disposal, and the next turn of the event loop sends nothing.
\<close>

theorem dispose_twice_witness:
  "(let st = run qp_write [Show, Write (QP_value ''a'')] (createQuickPick ''ext'' initial_world)
    in \<not> disposed (snd st) \<and> timers (fst st) = [1] \<and>
       sessions (fst st) = [(1, QuickPickClass)] \<and>
       dispose (dispose st) = dispose st \<and>
       proxy (fst (dispose st)) = [Proxy_dispose 1] \<and>
       timers (fst (dispose st)) = [] \<and>
       sessions (fst (dispose st)) = [] \<and>
       delivered (onDidHideEmitter (snd (dispose st))) = [] \<and>
       proxy (fst (next_turn (dispose (dispose st)))) = [Proxy_dispose 1])"
  using dispose_twice
    [of "run qp_write [Show, Write (QP_value ''a'')] (createQuickPick ''ext'' initial_world)"]
  by (simp add: session_defs)

section \<open>A disposed session\<close>

text \<open>
  On a disposed session every call leaves the proxy, the registry, the pending update and the
  remembered timer as they are, and sets no timer.
\<close>

lemma base_step_disposed:
  assumes "disposed this" and "step (\<lambda>kv. update [kv]) a (w, this) = (w', this')"
  shows "proxy w' = proxy w \<and> sessions w' = sessions w \<and> set (timers w') \<subseteq> set (timers w) \<and>
         pendingUpdate this' = pendingUpdate this \<and> disposed this' \<and>
         updateTimeout this' = updateTimeout this \<and>
         onDidHideEmitter this' = onDidHideEmitter this \<and> sid this' = sid this"
  using assms
  by (cases a)
     (auto simp add: update_disposed show'_def hide_def dispose_disposed next_turn_disposed)

lemma base_run_disposed:
  assumes "disposed this" and "run (\<lambda>kv. update [kv]) acts (w, this) = (w', this')"
  shows "proxy w' = proxy w \<and> sessions w' = sessions w \<and> set (timers w') \<subseteq> set (timers w) \<and>
         pendingUpdate this' = pendingUpdate this \<and> disposed this' \<and>
         updateTimeout this' = updateTimeout this \<and>
         onDidHideEmitter this' = onDidHideEmitter this \<and> sid this' = sid this"
  using assms
proof (induction acts arbitrary: w this)
  case Nil
  then show ?case by (simp add: run_def)
next
  case (Cons a acts)
  obtain w1 this1 where s: "step (\<lambda>kv. update [kv]) a (w, this) = (w1, this1)"
    by (cases "step (\<lambda>kv. update [kv]) a (w, this)")
  from base_step_disposed[OF Cons.prems(1) s]
  have e: "proxy w1 = proxy w" "sessions w1 = sessions w" "set (timers w1) \<subseteq> set (timers w)"
    "pendingUpdate this1 = pendingUpdate this" "disposed this1"
    "updateTimeout this1 = updateTimeout this"
    "onDidHideEmitter this1 = onDidHideEmitter this" "sid this1 = sid this"
    by simp_all
  have "run (\<lambda>kv. update [kv]) acts (w1, this1) = (w', this')"
    using Cons.prems(2) s by (simp add: run_def)
  from Cons.IH[OF e(5) this] e show ?case by auto
qed

lemma run_disposed:
  assumes hom: "\<And>x st. absf (wr x st) = update [stg x] (absf st)"
      and dis: "disposed (snd st)"
  shows "(let st' = run wr acts st
          in proxy (fst st') = proxy (fst st) \<and> sessions (fst st') = sessions (fst st) \<and>
             set (timers (fst st')) \<subseteq> set (timers (fst st)) \<and>
             pendingUpdate (snd st') = pendingUpdate (snd st) \<and> disposed (snd st') \<and>
             updateTimeout (snd st') = updateTimeout (snd st))"
proof -
  obtain w this where st: "st = (w, this)" by (cases st)
  obtain w' this' where r: "run wr acts (w, this) = (w', this')"
    by (cases "run wr acts (w, this)")
  have "run (\<lambda>kv. update [kv]) (map (map_action stg) acts) (w, bookkeeping this) =
          (w', bookkeeping this')"
    using absf_run[of wr stg, OF hom, of acts "(w, this)"] r by (simp add: absf_def)
  from base_run_disposed[OF _ this] dis st show ?thesis
    by (simp add: r bookkeeping_def)
qed

lemma dispose_result:
  fixes st0 :: "world \<times> 'a ExtHostQuickInput_scheme"
  shows "disposed (snd (dispose st0)) \<and>
         (\<forall>t. updateTimeout (snd st0) = Some t \<longrightarrow> disposed (snd st0) \<or> t \<notin> set (timers (fst (dispose st0))))"
  by (cases st0; cases "updateTimeout (snd st0)")
     (auto simp add: dispose_def Let_def clearTimeout_def)

text \<open>
  Claim C4, as stated, fails on "no observable state change". A setter assigns its field
  before it calls \<open>update\<close>, and only \<open>update\<close> looks at \<open>_disposed\<close>: on a disposed quick
  pick \<open>enabled = false\<close> changes what the \<open>enabled\<close> getter returns from \<open>true\<close> to
  \<open>false\<close>.
\<close>

theorem setter_after_dispose_changes_local_state:
  "(let st = dispose (createQuickPick ''ext'' initial_world)
    in enabled (snd st) = True \<and> enabled (snd (qp_write (QP_enabled False) st)) = False \<and>
       qp_write (QP_enabled False) st \<noteq> st)"
  by (simp add: session_defs)

text \<open>
  Claim C4, amended. Once \<open>dispose\<close> has been called on a live session, the session is
  disposed and the timer it had set is no longer among the timers of the event loop. Whatever
  is done afterwards (setter calls, \<open>show\<close>, \<open>hide\<close>, \<open>dispose\<close>, turns of the event loop,
  in any order), the host receives no further call, so no \<open>$createOrUpdate\<close>; nothing is
  added to the pending update; no timer is set; and the session stays disposed. The first
  conjunct is the statement for a quick pick, the second for an input box.
\<close>

theorem nothing_staged_or_sent_after_dispose:
  "(\<not> disposed (snd st0) \<longrightarrow>
      (let st = dispose st0; st' = run qp_write acts st
       in disposed (snd st) \<and>
          (\<forall>t. updateTimeout (snd st0) = Some t \<longrightarrow> t \<notin> set (timers (fst st))) \<and>
          proxy (fst st') = proxy (fst st) \<and>
          pendingUpdate (snd st') = pendingUpdate (snd st) \<and>
          set (timers (fst st')) \<subseteq> set (timers (fst st)) \<and>
          disposed (snd st'))) \<and>
   (\<not> disposed (snd bt0) \<longrightarrow>
      (let bt = dispose bt0; bt' = run ib_write bacts bt
       in disposed (snd bt) \<and>
          (\<forall>t. updateTimeout (snd bt0) = Some t \<longrightarrow> t \<notin> set (timers (fst bt))) \<and>
          proxy (fst bt') = proxy (fst bt) \<and>
          pendingUpdate (snd bt') = pendingUpdate (snd bt) \<and>
          set (timers (fst bt')) \<subseteq> set (timers (fst bt)) \<and>
          disposed (snd bt')))"
proof (intro conjI impI)
  assume live: "\<not> disposed (snd st0)"
  from dispose_result[of st0] live
  have d: "disposed (snd (dispose st0))"
    "\<forall>t. updateTimeout (snd st0) = Some t \<longrightarrow> t \<notin> set (timers (fst (dispose st0)))"
    by blast+
  from run_disposed[of qp_write qp_staged "dispose st0" acts, OF absf_qp_write d(1)] d
  show "let st = dispose st0; st' = run qp_write acts st
       in disposed (snd st) \<and>
          (\<forall>t. updateTimeout (snd st0) = Some t \<longrightarrow> t \<notin> set (timers (fst st))) \<and>
          proxy (fst st') = proxy (fst st) \<and>
          pendingUpdate (snd st') = pendingUpdate (snd st) \<and>
          set (timers (fst st')) \<subseteq> set (timers (fst st)) \<and>
          disposed (snd st')"
    unfolding Let_def by blast
next
  assume live: "\<not> disposed (snd bt0)"
  from dispose_result[of bt0] live
  have d: "disposed (snd (dispose bt0))"
    "\<forall>t. updateTimeout (snd bt0) = Some t \<longrightarrow> t \<notin> set (timers (fst (dispose bt0)))"
    by blast+
  from run_disposed[of ib_write ib_staged "dispose bt0" bacts, OF absf_ib_write d(1)] d
  show "let bt = dispose bt0; bt' = run ib_write bacts bt
       in disposed (snd bt) \<and>
          (\<forall>t. updateTimeout (snd bt0) = Some t \<longrightarrow> t \<notin> set (timers (fst bt))) \<and>
          proxy (fst bt') = proxy (fst bt) \<and>
          pendingUpdate (snd bt') = pendingUpdate (snd bt) \<and>
          set (timers (fst bt')) \<subseteq> set (timers (fst bt)) \<and>
          disposed (snd bt')"
    unfolding Let_def by blast
qed

text \<open>
  The theorem at work: sessions disposed with a flush pending, then written to, shown and
  run through the event loop.
\<close>

theorem nothing_staged_or_sent_after_dispose_witness:
  "(let st0 = run qp_write [Show, Write (QP_value ''a'')] (createQuickPick ''ext'' initial_world);
        st = dispose st0;
        st' = run qp_write [Write (QP_value ''b''), Write (QP_items []), Show, Turn, Hide,
                            Write (QP_busy True), Dispose, Turn] st
    in \<not> disposed (snd st0) \<and> updateTimeout (snd st0) = Some 1 \<and> timers (fst st0) = [1] \<and>
       timers (fst st) = [] \<and> proxy (fst st) = [Proxy_dispose 1] \<and>
       proxy (fst st') = [Proxy_dispose 1] \<and>
       pendingUpdate (snd st') = pendingUpdate (snd st) \<and> timers (fst st') = []) \<and>
   (let bt0 = run ib_write [Show, Write (IB_prompt ''p'')] (createInputBox ''ext'' initial_world);
        bt = dispose bt0;
        bt' = run ib_write [Write (IB_prompt ''q''), Show, Turn] bt
    in \<not> disposed (snd bt0) \<and> updateTimeout (snd bt0) = Some 1 \<and>
       timers (fst bt) = [] \<and> proxy (fst bt') = [Proxy_dispose 1] \<and>
       pendingUpdate (snd bt') = pendingUpdate (snd bt))"
  using nothing_staged_or_sent_after_dispose
    [of "run qp_write [Show, Write (QP_value ''a'')] (createQuickPick ''ext'' initial_world)"
        "[Write (QP_value ''b''), Write (QP_items []), Show, Turn, Hide,
          Write (QP_busy True), Dispose, Turn]"
        "run ib_write [Show, Write (IB_prompt ''p'')] (createInputBox ''ext'' initial_world)"
        "[Write (IB_prompt ''q''), Show, Turn]"]
  by (simp add: session_defs)

section \<open>The item list of a quick pick\<close>

text \<open>
  The table that the \<open>items\<close> setter rebuilds is the list of the items with their
  indices, and a lookup in it is a lookup in the list by position.
\<close>

lemma update_absent: "k \<notin> fst ` set al \<Longrightarrow> AList.update k v al = al @ [(k, v)]"
  by (induction al) auto

lemma fold_update_enumerate:
  "\<forall>k \<in> fst ` set acc. k < n \<Longrightarrow>
   fold (\<lambda>(i, item). AList.update i item) (enumerate n xs) acc = acc @ enumerate n xs"
proof (induction xs arbitrary: n acc)
  case Nil
  then show ?case by simp
next
  case (Cons x xs)
  have a: "AList.update n x acc = acc @ [(n, x)]"
    using Cons.prems by (intro update_absent) auto
  have "\<forall>k \<in> fst ` set (acc @ [(n, x)]). k < Suc n"
    using Cons.prems by (auto simp: less_Suc_eq)
  from Cons.IH[OF this] a show ?case by simp
qed

lemma map_of_enumerate:
  "map_of (enumerate n xs) h = (if n \<le> h \<and> h < n + length xs then Some (xs ! (h - n)) else None)"
proof (induction xs arbitrary: n)
  case Nil
  then show ?case by simp
next
  case (Cons x xs)
  show ?case
  proof (cases "h = n")
    case True
    then show ?thesis by simp
  next
    case False
    then show ?thesis
      by (cases "n < h") (simp_all add: Cons.IH[of "Suc n"] Suc_diff_Suc Suc_le_eq)
  qed
qed

lemma set_items_fields:
  fixes st :: "world \<times> 'a ExtHostQuickPick_scheme"
  shows "items (snd (set_items its st)) = its \<and>
         handlesToItems (snd (set_items its st)) = enumerate 0 its \<and>
         onDidSelectionChangeEmitter (snd (set_items its st)) = onDidSelectionChangeEmitter (snd st)"
proof -
  obtain w this where st: "st = (w, this)" by (cases st)
  have h: "fold (\<lambda>(i, item). AList.update i item) (enumerate 0 its) [] = enumerate 0 its"
    using fold_update_enumerate[of "[]" 0 its] by simp
  show ?thesis
    by (simp add: st set_items_def Let_def h update_def setTimeout_def split: prod.splits)
qed

text \<open>
  Claim C7. On a quick pick that is not disposed, assigning \<open>items\<close> stores the new list
  in place of the old one, whatever the old one was; rebuilds the table from handles to
  items so that the handle of an item is its index in the new list (and no other handle is
  in the table); and stages under \<open>items\<close> the list of one object per item, in order,
  with exactly the properties \<open>label\<close>, \<open>description\<close>, \<open>handle\<close>, \<open>detail\<close> and
  \<open>picked\<close>, the handle being the index. Nothing of \<open>extra\<close>, the other properties of the
  caller's object, is in the staged object. (On a disposed quick pick the list and the table
  are replaced in the same way and nothing is staged.)
\<close>

theorem items_setter:
  fixes st :: "world \<times> 'a ExtHostQuickPick_scheme"
  shows "\<not> disposed (snd st) \<longrightarrow>
     (let st' = set_items its st
      in items (snd st') = its \<and>
         handlesToItems (snd st') = enumerate 0 its \<and>
         (\<forall>h. map_of (handlesToItems (snd st')) h =
                (if h < length its then Some (its ! h) else None)) \<and>
         map_of (pendingUpdate (snd st')) ''items'' =
           Some (Arr (map (\<lambda>(i, item).
                   Obj [(''label'', Str (label item)),
                        (''description'', opt_str (description item)),
                        (''handle'', Num i),
                        (''detail'', opt_str (detail item)),
                        (''picked'', opt_bool (picked item))])
                 (enumerate 0 its))))"
proof
  assume live: "\<not> disposed (snd st)"
  obtain w this where st: "st = (w, this)" by (cases st)
  have p: "map_of (pendingUpdate (snd (set_items its st))) ''items'' =
           Some (Arr (map (\<lambda>(i, item). transfer_item i item) (enumerate 0 its)))"
    using live
    by (simp add: st set_items_def Let_def update_def setTimeout_def assign_single update_conv'
        split: prod.splits)
  show "let st' = set_items its st
      in items (snd st') = its \<and>
         handlesToItems (snd st') = enumerate 0 its \<and>
         (\<forall>h. map_of (handlesToItems (snd st')) h =
                (if h < length its then Some (its ! h) else None)) \<and>
         map_of (pendingUpdate (snd st')) ''items'' =
           Some (Arr (map (\<lambda>(i, item).
                   Obj [(''label'', Str (label item)),
                        (''description'', opt_str (description item)),
                        (''handle'', Num i),
                        (''detail'', opt_str (detail item)),
                        (''picked'', opt_bool (picked item))])
                 (enumerate 0 its)))"
    unfolding Let_def using p set_items_fields[of its st]
    by (simp add: map_of_enumerate transfer_item_def)
qed

text \<open>
  The theorem at work on a quick pick that already had an item list: the first new item
  carries a property of the caller's own, which is not staged.
\<close>

theorem items_setter_witness:
  "(let its = [\<lparr>label = ''eins'', description = Some ''one'', detail = None, picked = Some True,
                extra = [(''secret'', Str ''s'')]\<rparr>, labelled ''zwei''];
        st = qp_set_value ''v'' (set_items [labelled ''null''] (createQuickPick ''ext'' initial_world));
        st' = set_items its st
    in \<not> disposed (snd st) \<and> items (snd st') = its \<and>
       map_of (handlesToItems (snd st')) 0 = Some (its ! 0) \<and>
       map_of (handlesToItems (snd st')) 1 = Some (labelled ''zwei'') \<and>
       map_of (handlesToItems (snd st')) 2 = None \<and>
       pendingUpdate (snd st') =
         [(''id'', Num 1),
          (''items'', Arr
             [Obj [(''label'', Str ''eins''), (''description'', Str ''one''), (''handle'', Num 0),
                   (''detail'', Undefined), (''picked'', Bool True)],
              Obj [(''label'', Str ''zwei''), (''description'', Undefined), (''handle'', Num 1),
                   (''detail'', Undefined), (''picked'', Undefined)]]),
          (''value'', Str ''v'')])"
  using items_setter
    [of "qp_set_value ''v'' (set_items [labelled ''null''] (createQuickPick ''ext'' initial_world))"
        "[\<lparr>label = ''eins'', description = Some ''one'', detail = None, picked = Some True,
                extra = [(''secret'', Str ''s'')]\<rparr>, labelled ''zwei'']"]
  by (simp add: session_defs labelled_def transfer_item_def opt_str_def opt_bool_def enumerate_eq_zip)

text \<open>
  Claim C8, as stated, fails for a stale handle that is also an index of the new list.
  Handles are positions and the table keeps no trace of the list it was built from: handle
  \<open>0\<close> stood for \<open>eins\<close> under the first list, and a selection event with handle \<open>0\<close>
  that arrives after the list was replaced by \<open>[drei]\<close> is delivered as \<open>drei\<close>, an item
  of the new list.
\<close>

theorem stale_handle_resolves_to_new_item:
  "(let st0 = createQuickPick ''ext'' initial_world;
        st1 = set_items [labelled ''eins'', labelled ''zwei''] st0;
        st2 = set_items [labelled ''drei''] st1;
        st3 = onDidSelectItems 1 [0] st2
    in map_of (handlesToItems (snd st1)) 0 = Some (labelled ''eins'') \<and>
       delivered (onDidSelectionChangeEmitter (snd st3)) = [[Some (labelled ''drei'')]])"
  by (simp add: session_defs labelled_def onDidSelectItems_def fireDidSelectionChange_def
      enumerate_eq_zip)

text \<open>
  Claim C8, amended. After a new item list is assigned, whatever the list was before, a
  selection event resolves each of its handles by position in the new list: a handle below
  the length of the new list is delivered as the new item at that index, and any other
  handle (so every handle that is an index of the old list only) as \<open>undefined\<close>. The
  event is delivered on \<open>onDidSelectionChange\<close>, which the source never tears down.
\<close>

theorem handles_resolve_by_position_in_current_list:
  fixes st :: "world \<times> 'a ExtHostQuickPick_scheme"
  shows "\<not> torn_down (onDidSelectionChangeEmitter (snd st)) \<longrightarrow>
     (let st1 = set_items new st;
          this2 = fireDidSelectionChange handles (snd st1)
      in delivered (onDidSelectionChangeEmitter this2) =
           delivered (onDidSelectionChangeEmitter (snd st)) @
             [map (\<lambda>h. if h < length new then Some (new ! h) else None) handles])"
  using set_items_fields[of new st]
  by (simp add: Let_def fireDidSelectionChange_def fire_def map_of_enumerate)

text \<open>
  The theorem at work: after \<open>[eins, zwei]\<close> is replaced by \<open>[drei]\<close>, handle \<open>1\<close>
  resolves to nothing and handle \<open>0\<close> to \<open>drei\<close>.
\<close>

theorem handles_resolve_by_position_in_current_list_witness:
  "(let st = set_items [labelled ''eins'', labelled ''zwei''] (createQuickPick ''ext'' initial_world);
        st1 = set_items [labelled ''drei''] st;
        this2 = fireDidSelectionChange [1, 0] (snd st1)
    in \<not> torn_down (onDidSelectionChangeEmitter (snd st)) \<and>
       delivered (onDidSelectionChangeEmitter this2) = [[None, Some (labelled ''drei'')]])"
  using handles_resolve_by_position_in_current_list
    [of "set_items [labelled ''eins'', labelled ''zwei''] (createQuickPick ''ext'' initial_world)"
        "[labelled ''drei'']" "[1, 0]"]
  by (simp add: session_defs labelled_def fireDidSelectionChange_def enumerate_eq_zip)

section \<open>The one-shot requests\<close>

text \<open>
  A request whose item list is the first to settle and is rejected, with a token that is
  not cancelled, by what the race does with the rejection. The rejection handler runs only
  if the race completes for the item list although the list is rejected. When the widget
  settles first, the request is fulfilled with \<open>undefined\<close> whatever becomes of the item
  list.
\<close>

lemma showQuickPick_rejected_cases:
  "showQuickPick on_error options False ItemsFirst (Rejected err) handle q =
     (case on_error err of
        Rejected e \<Rightarrow> (showQuickPick_call options q, Rejected e)
      | Fulfilled Key0 \<Rightarrow> (showQuickPick_call options q, Fulfilled NoPick)
      | Fulfilled Key1 \<Rightarrow>
          ((showQuickPick_call options q)
             \<lparr>proxy := proxy (showQuickPick_call options q) @ [Proxy_setError err]\<rparr>,
           Rejected err))"
  by (simp add: showQuickPick_def showQuickPick_settle_def TPromise_any_def
      wireCancellationToken_def showQuickPick_onRejected_def
      split: settled.splits any_key.splits)

lemma showQuickPick_widget_first:
  "showQuickPick on_error options False WidgetFirst itemsPromise handle q =
     (showQuickPick_call options q, Fulfilled NoPick)"
  by (simp add: showQuickPick_def showQuickPick_settle_def TPromise_any_def
      wireCancellationToken_def)

lemma showQuickPick_call_proxy:
  "\<exists>shown. proxy (showQuickPick_call options q) = proxy q @ [Proxy_show shown]"
  by (simp add: showQuickPick_call_def Let_def)

text \<open>
  Claim C6. The handler that reports the error with \<open>$setError\<close> and raises it again is
  the rejection handler of \<open>itemsPromise.then\<close>, which is attached inside the callback of
  \<open>TPromise.any(...).then\<close>; that \<open>then\<close> has no rejection handler. When the item list
  is rejected while the picker is open and the race fails with an error, the callback does
  not run: the state is the one the call left, the only call the request has made on the
  proxy is \<open>$show\<close>, no \<open>$setError\<close> is sent, and the caller's promise is rejected with
  the error of the race.
\<close>

theorem rejected_item_list_bypasses_error_handler:
  "on_error err = Rejected e \<longrightarrow>
     (let r = showQuickPick on_error options False ItemsFirst (Rejected err) handle q
      in fst r = showQuickPick_call options q \<and>
         (\<exists>shown. proxy (fst r) = proxy q @ [Proxy_show shown]) \<and>
         Proxy_setError err \<notin> set (drop (length (proxy q)) (proxy (fst r))) \<and>
         snd r = Rejected e)"
proof
  assume a: "on_error err = Rejected e"
  obtain shown where s: "proxy (showQuickPick_call options q) = proxy q @ [Proxy_show shown]"
    using showQuickPick_call_proxy by blast
  show "let r = showQuickPick on_error options False ItemsFirst (Rejected err) handle q
      in fst r = showQuickPick_call options q \<and>
         (\<exists>shown. proxy (fst r) = proxy q @ [Proxy_show shown]) \<and>
         Proxy_setError err \<notin> set (drop (length (proxy q)) (proxy (fst r))) \<and>
         snd r = Rejected e"
    by (simp add: showQuickPick_rejected_cases a Let_def s)
qed

text \<open>The theorem at work on a request without options.\<close>

theorem rejected_item_list_bypasses_error_handler_witness:
  "(let r = showQuickPick (\<lambda>err. Rejected (Str ''race failed'')) None False ItemsFirst
              (Rejected (Str ''boom'')) NoHandle initial_world
    in proxy (fst r) =
         [Proxy_show [(''placeHolder'', Undefined), (''matchOnDescription'', Undefined),
                      (''matchOnDetail'', Undefined), (''ignoreFocusLost'', Undefined),
                      (''canPickMany'', Undefined)]] \<and>
       snd r = Rejected (Str ''race failed''))"
  using rejected_item_list_bypasses_error_handler
    [of "\<lambda>err. Rejected (Str ''race failed'')" "Str ''boom''" "Str ''race failed''"
        None NoHandle initial_world]
  by (simp add: showQuickPick_def showQuickPick_settle_def TPromise_any_def
      wireCancellationToken_def showQuickPick_call_def initial_world_def Let_def
      opt_str_def opt_bool_def)

text \<open>
  Claim C9. \<open>showInput\<close> writes the validator of its options, or \<open>undefined\<close> when there
  are no options or they carry no validator, into the one slot \<open>_validateInput\<close>, whatever
  was there. After a second \<open>showInput\<close>, made while the first request is still open, the
  slot holds the second request's validator: \<open>$validateInput\<close> invokes that validator
  with the input and no other, and returns \<open>undefined\<close> without invoking anything when the
  second request has none, whatever validator the first request had.
\<close>

theorem single_validator_slot:
  "validateInput (showInput o1 q) = Option.bind o1 options_validateInput \<and>
   validateInput (showInput o2 (showInput o1 q)) = Option.bind o2 options_validateInput \<and>
   validateInput_request input (showInput o2 (showInput o1 q)) =
     map_option (\<lambda>f. (f, input)) (Option.bind o2 options_validateInput)"
  by (cases "Option.bind o2 options_validateInput")
     (simp_all add: showInput_def validateInput_request_def Let_def)




end
